theory Spec2Isabelle
  imports Main
begin

section \<open>Values of the program\<close>

text \<open>
  \<^verbatim>\<open>src/src/Connection.ts\<close> defines one class, \<open>SSHConnection\<close>. Its methods are
  promise-returning and event-driven; JavaScript runs them one callback at a time, so the
  model is sequential: every method takes the state and returns the state of its promise
  together with the new state. Every call into a collaborator (the ssh2 client, the net
  server, readline, the file system, the debug logger) is appended to a trace, and what
  the collaborators answer is read from a \<open>world\<close>.
\<close>

type_synonym session = nat \<comment> \<open>a \<open>Client\<close> object, numbered in order of creation\<close>
type_synonym stream = nat \<comment> \<open>a channel stream handed out by the transport\<close>
type_synonym socket = nat \<comment> \<open>a client socket accepted by the local listener\<close>

text \<open>\<open>privateKey?: Buffer | string\<close>: an empty string is falsy, a Buffer never is.\<close>

datatype key = KeyString string | KeyBuffer string

text \<open>
  Values that are thrown or passed to \<open>reject\<close>: an \<open>Error\<close> with its message, or the
  data chunk of a shell's stderr.
\<close>

datatype error = Error string | Data string

text \<open>
  The state of a promise. \<open>resolve\<close> and \<open>reject\<close> settle a pending promise and do
  nothing to a settled one.
\<close>

datatype 'a outcome = Resolved 'a | Rejected error | Pending

definition resolve :: "'a \<Rightarrow> 'a outcome \<Rightarrow> 'a outcome" where
  "resolve v p = (case p of Pending \<Rightarrow> Resolved v | Resolved u \<Rightarrow> Resolved u | Rejected e \<Rightarrow> Rejected e)"

definition reject :: "error \<Rightarrow> 'a outcome \<Rightarrow> 'a outcome" where
  "reject e p = (case p of Pending \<Rightarrow> Rejected e | Resolved u \<Rightarrow> Resolved u | Rejected e' \<Rightarrow> Rejected e')"

text \<open>
  \<open>type Options = {bastionHost?, endPort?, endHost, agentSocket?, skipAutoPrivateKey?,
  noReadline?} & ConnectConfig\<close>. \<open>ConnectConfig\<close> is declared by ssh2; the fields of it
  that the class reads or writes are listed, the others pass through \<open>connect\<close> untouched.
  An optional field that is absent (or \<open>undefined\<close>) is \<open>None\<close>; an optional boolean that
  is absent is \<open>False\<close>. For \<open>host\<close> and \<open>port\<close> the two are kept apart, because the
  spread in \<open>connect\<close> copies a property that is there with the value \<open>undefined\<close> and
  copies nothing for one that is missing.
\<close>

datatype 'a property = Missing | Undefined | Value 'a

record Options =
  bastionHost :: "string option"
  endPort :: "int option"
  endHost :: string
  agentSocket :: "string option"
  skipAutoPrivateKey :: bool
  noReadline :: bool
  host :: "string property"
  port :: "int property"
  username :: "string option"
  privateKey :: "key option"
  passphrase :: "string option"
  agentForward :: bool
  agent :: "string option"
  sock :: "stream option"

record ForwardingOptions =
  fromPort :: int
  toPort :: int
  toHost :: "string option"

text \<open>JavaScript truthiness of the option values the code tests.\<close>

definition truthy_str :: "string option \<Rightarrow> bool" where
  "truthy_str v = (case v of None \<Rightarrow> False | Some s \<Rightarrow> s \<noteq> [])"

definition truthy_num :: "int option \<Rightarrow> bool" where
  "truthy_num v = (case v of None \<Rightarrow> False | Some n \<Rightarrow> n \<noteq> 0)"

definition truthy_key :: "key option \<Rightarrow> bool" where
  "truthy_key v = (case v of None \<Rightarrow> False | Some (KeyString s) \<Rightarrow> s \<noteq> [] | Some (KeyBuffer b) \<Rightarrow> True)"

text \<open>\<open>a || b\<close> on optional strings and on an optional number with a default.\<close>

definition str_or :: "string option \<Rightarrow> string option \<Rightarrow> string option" where
  "str_or a b = (if truthy_str a then a else b)"

definition num_or :: "int option \<Rightarrow> int \<Rightarrow> int" where
  "num_or a d = (case a of None \<Rightarrow> d | Some n \<Rightarrow> if n = 0 then d else n)"

section \<open>The process and the collaborators\<close>

text \<open>
  The file at \<open>path.join(os.homedir(), '.ssh', 'id_rsa')\<close>: \<open>existsSync\<close> is false on
  \<open>Absent\<close>; \<open>readFileSync\<close> returns the contents of \<open>Present\<close> and throws on
  \<open>Unreadable\<close>.
\<close>

datatype keyfile = Absent | Present string | Unreadable error

record Env =
  env_SSH_USERNAME :: "string option"
  env_USER :: "string option"
  env_SSH_AUTH_SOCK :: "string option"
  platform :: string
  defaultKeyFile :: keyfile

text \<open>The arguments of the calls of \<open>this.debug\<close>.\<close>

datatype message =
    ShutdownConnections
  | OpeningTty
  | ExecutingCommand string
  | ConnectingToBastion string
  | ConnectingTo string
  | ForwardingConnection int "string option" int
  | ForwardingSocketFailed error

text \<open>
  The trace: calls into the collaborators, in the order the code makes them, and the two
  transport events (\<open>ReadyEvent\<close>, \<open>ErrorEvent\<close>) that the handlers of \<open>connect\<close> see.
  \<open>UnhandledRejection\<close> records a rejection of a promise that nothing observes,
  \<open>UnhandledError\<close> an \<open>error\<close> event of an emitter that has no handler for it.
  \<open>SocketEnd\<close> stands for a call of \<open>end\<close> or \<open>destroy\<close> on an accepted client socket; the
  class makes none, and the event is there so that dropping a client can be stated.
\<close>

datatype event =
    Debug message
  | ExistsSync
  | ReadFileSync
  | Question
  | Connect session Options
  | ReadyEvent session
  | ErrorEvent session error
  | ForwardOut session string int string int
  | Shell session
  | StreamEnd stream "string option"
  | StreamPipeStdout stream
  | StdinPipe stream
  | StdinUnpipe stream
  | StdinDestroy
  | SocketPipe socket stream
  | StreamPipe stream socket
  | SocketEnd socket
  | RemoveAllListeners session
  | EndSession session
  | Listen int string
  | ServerClose
  | UnhandledRejection error
  | UnhandledError error

text \<open>What the collaborators answer.\<close>

datatype connect_reply = Ready | Fails error | Throws error | Silent

datatype forward_reply = Channel stream | ChannelError error | ChannelThrows error | ChannelSilent

datatype stream_event = StderrData string | Close

datatype shell_reply = ShellStream stream "stream_event list" | ShellError error | ShellThrows error | ShellSilent

record world =
  on_connect :: "session \<Rightarrow> connect_reply"
    \<comment> \<open>what follows \<open>connection.connect(options)\<close> on that client: the \<open>ready\<close> event, the
        \<open>error\<close> event, a synchronous throw, or nothing\<close>
  on_forwardOut :: "nat \<Rightarrow> forward_reply"
    \<comment> \<open>the answer to the n-th \<open>forwardOut\<close> request\<close>
  on_question :: "nat \<Rightarrow> string option"
    \<comment> \<open>the line typed at the n-th prompt, \<open>None\<close> when none ever is\<close>
  on_shell :: "session \<Rightarrow> shell_reply"
    \<comment> \<open>the answer to \<open>connection.shell\<close>; a stream comes with the events it will fire\<close>
  on_listen :: "error option"
    \<comment> \<open>\<open>None\<close> when the listener gets bound, else the \<open>error\<close> event of the server\<close>
  on_accept :: "socket list"
    \<comment> \<open>the client sockets the bound listener accepts, in order\<close>

text \<open>The status of the \<open>net.Server\<close> held in \<open>this.server\<close>.\<close>

datatype listener = Binding | Listening | Closing | Closed

text \<open>
  The four fields of the object, the environment of the process, the trace, and the
  counters that number clients, \<open>forwardOut\<close> requests and prompts.
\<close>

record state =
  options :: Options
  server :: "listener option"
  connections :: "session list"
  isWindows :: bool
  env :: Env
  trace :: "event list"
  clients :: nat
  channels :: nat
  questions :: nat

definition emit :: "event \<Rightarrow> state \<Rightarrow> state" where
  "emit e s = s\<lparr>trace := trace s @ [e]\<rparr>"

section \<open>The constructor\<close>

definition constructor :: "Env \<Rightarrow> Options \<Rightarrow> error + state" where
  "constructor e opts =
    (let o1 = (if \<not> truthy_str (username opts)
               then opts\<lparr>username := str_or (env_SSH_USERNAME e) (env_USER e)\<rparr> else opts);
         o2 = (if \<not> truthy_num (endPort o1) then o1\<lparr>endPort := Some 22\<rparr> else o1);
         s0 = \<lparr>options = o2, server = None, connections = [],
               isWindows = (platform e = ''win32''), env = e, trace = [],
               clients = 0, channels = 0, questions = 0\<rparr>
     in if \<not> truthy_key (privateKey o2) \<and> \<not> agentForward o2 \<and> \<not> skipAutoPrivateKey o2 then
          (case defaultKeyFile e of
             Absent \<Rightarrow> Inr (emit ExistsSync s0)
           | Present c \<Rightarrow>
               Inr ((emit ReadFileSync (emit ExistsSync s0))
                      \<lparr>options := o2\<lparr>privateKey := Some (KeyBuffer c)\<rparr>\<rparr>)
           | Unreadable err \<Rightarrow> Inl err)
        else Inr s0)"

section \<open>connect\<close>

text \<open>The agent socket of lines 160 to 168: the explicit one if truthy, else the default.\<close>

definition agentSock :: "state \<Rightarrow> string option" where
  "agentSock s =
    (let agentDefault = env_SSH_AUTH_SOCK (env (s::state));
         agentDefault' = (if isWindows s
                          then (case agentDefault of None \<Rightarrow> Some ''pageant'' | Some a \<Rightarrow> Some a)
                          else agentDefault)
     in if truthy_str (agentSocket (options s)) then agentSocket (options s) else agentDefault')"

text \<open>
  \<open>toString().toLowerCase().includes('encrypted')\<close>, on the bytes of the key. Only the
  letters A to Z are folded: no other character has a lower case that contains a letter of
  the word looked for, so the test finds the same keys.
\<close>

definition toLowerCase :: "string \<Rightarrow> string" where
  "toLowerCase cs =
     map (\<lambda>c. let n = (of_char c :: nat) in if 65 \<le> n \<and> n \<le> 90 then char_of (n + 32) else c) cs"

fun includes_str :: "string \<Rightarrow> string \<Rightarrow> bool" where
  "includes_str [] t = (t = [])"
| "includes_str (c # cs) t = (take (length t) (c # cs) = t \<or> includes_str cs t)"

definition toString :: "key \<Rightarrow> string" where
  "toString k = (case k of KeyString s \<Rightarrow> s | KeyBuffer b \<Rightarrow> b)"

definition looksEncrypted :: "Options \<Rightarrow> bool" where
  "looksEncrypted opts =
     (case privateKey opts of
        None \<Rightarrow> False
      | Some k \<Rightarrow> if truthy_key (Some k) then includes_str (toLowerCase (toString k)) ''encrypted'' else False)"

text \<open>
  Lines 184 to 196: the \<open>ready\<close> handler pushes the client on \<open>this.connections\<close> and
  resolves, the \<open>error\<close> handler rejects, and a throw of \<open>connection.connect\<close> is caught and
  rejects.
\<close>

definition connect_attempt :: "world \<Rightarrow> session \<Rightarrow> Options \<Rightarrow> state \<Rightarrow> session outcome \<times> state" where
  "connect_attempt w c opts s =
    (let s1 = emit (Connect c opts) s in
     case on_connect w c of
       Throws e \<Rightarrow> (Rejected e, s1)
     | Ready \<Rightarrow> (Resolved c, (emit (ReadyEvent c) s1)\<lparr>connections := connections s1 @ [c]\<rparr>)
     | Fails e \<Rightarrow> (Rejected e, emit (ErrorEvent c e) s1)
     | Silent \<Rightarrow> (Pending, s1))"

text \<open>
  \<open>connect(host, stream)\<close>. The executor given to \<open>new Promise\<close> is an \<open>async\<close> function:
  the \<open>throw\<close> of line 170 rejects the promise of that function, which nothing holds,
  and neither \<open>resolve\<close> nor \<open>reject\<close> of the promise that \<open>connect\<close> returns is called.
  In \<open>{host, port: this.options.endPort, ...this.options}\<close> the spread comes last, so a
  \<open>host\<close> or \<open>port\<close> property of the caller's options, also one whose value is
  \<open>undefined\<close>, replaces the one written before it.
\<close>

definition agentError :: error where
  "agentError = Error ''SSH Agent Socket is not provided, or is not set in the SSH_AUTH_SOCK env variable''"

text \<open>
  The options object of lines 150 to 179, as it is when no prompt is made: \<open>agent\<close> is
  written only under \<open>agentForward\<close>, \<open>sock\<close> only when a stream is given.
\<close>

definition connect_config :: "state \<Rightarrow> string \<Rightarrow> stream option \<Rightarrow> Options" where
  "connect_config s h strm =
    (let this = options s;
         opts = this\<lparr>host := (case host this of Missing \<Rightarrow> Value h | Undefined \<Rightarrow> Undefined
                              | Value h' \<Rightarrow> Value h'),
                     port := (case port this of
                                Missing \<Rightarrow> (case endPort this of None \<Rightarrow> Undefined | Some p \<Rightarrow> Value p)
                              | Undefined \<Rightarrow> Undefined
                              | Value p \<Rightarrow> Value p)\<rparr>;
         opts1 = (if agentForward this then opts\<lparr>agentForward := True, agent := agentSock s\<rparr>
                  else opts);
         opts2 = (case strm of None \<Rightarrow> opts1 | Some st \<Rightarrow> opts1\<lparr>sock := Some st\<rparr>)
     in opts2\<lparr>passphrase := passphrase this\<rparr>)"

definition connect :: "world \<Rightarrow> string \<Rightarrow> stream option \<Rightarrow> state \<Rightarrow> session outcome \<times> state" where
  "connect w h strm s =
    (let s1 = emit (Debug (ConnectingTo h)) s;
         connection = clients s1;
         s2 = s1\<lparr>clients := Suc connection\<rparr>;
         this = options s
     in if agentForward this \<and> agentSock s = None then
          (Pending, emit (UnhandledRejection agentError) s2)
        else
          (let opts = connect_config s h strm in
           if looksEncrypted this \<and> \<not> truthy_str (passphrase opts) \<and> \<not> noReadline this then
             (let s3 = emit Question (s2\<lparr>questions := Suc (questions s2)\<rparr>) in
              case on_question w (questions s2) of
                None \<Rightarrow> (Pending, s3)
              | Some answer \<Rightarrow> connect_attempt w connection (opts\<lparr>passphrase := Some answer\<rparr>) s3)
           else connect_attempt w connection opts s2))"

section \<open>establish\<close>

text \<open>
  \<open>connectViaBastion\<close>. \<open>forwardOut\<close> is called inside a plain executor, so a throw of it
  rejects. Its callback is \<open>async\<close>: when the awaited second \<open>connect\<close> rejects, the
  rejection belongs to the promise of the callback and the promise of
  \<open>connectViaBastion\<close> stays pending.
\<close>

definition connectViaBastion :: "world \<Rightarrow> string \<Rightarrow> state \<Rightarrow> session outcome \<times> state" where
  "connectViaBastion w b s =
    (let s1 = emit (Debug (ConnectingToBastion b)) s in
     case connect w b None s1 of
       (Rejected e, s2) \<Rightarrow> (Rejected e, s2)
     | (Pending, s2) \<Rightarrow> (Pending, s2)
     | (Resolved connectionToBastion, s2) \<Rightarrow>
         (let s3 = emit (ForwardOut connectionToBastion ''127.0.0.1'' 22
                           (endHost (options s2)) (num_or (endPort (options s2)) 22))
                        (s2\<lparr>channels := Suc (channels s2)\<rparr>)
          in case on_forwardOut w (channels s2) of
               ChannelThrows e \<Rightarrow> (Rejected e, s3)
             | ChannelError e \<Rightarrow> (Rejected e, s3)
             | ChannelSilent \<Rightarrow> (Pending, s3)
             | Channel st \<Rightarrow>
                 (case connect w (endHost (options s3)) (Some st) s3 of
                    (Resolved connection, s4) \<Rightarrow> (Resolved connection, s4)
                  | (Rejected e, s4) \<Rightarrow> (Pending, emit (UnhandledRejection e) s4)
                  | (Pending, s4) \<Rightarrow> (Pending, s4))))"

definition establish :: "world \<Rightarrow> state \<Rightarrow> session outcome \<times> state" where
  "establish w s =
    (if truthy_str (bastionHost (options s))
     then connectViaBastion w (case bastionHost (options s) of Some b \<Rightarrow> b | None \<Rightarrow> []) s
     else connect w (endHost (options s)) None s)"

section \<open>shutdown\<close>

fun shutdown_loop :: "session list \<Rightarrow> state \<Rightarrow> state" where
  "shutdown_loop [] s = s"
| "shutdown_loop (connection # cs) s =
     shutdown_loop cs (emit (EndSession connection) (emit (RemoveAllListeners connection) s))"

text \<open>
  Lines 74 to 79. \<open>this.server.close(resolve)\<close> asks the listener to close and keeps
  \<open>resolve\<close> as the callback of the completion; the statement after the \<open>if\<close>,
  \<open>return resolve()\<close>, runs in both cases. The completion comes in a later turn of the
  event loop (\<open>close_callback\<close>).
\<close>

definition shutdown :: "state \<Rightarrow> unit outcome \<times> state" where
  "shutdown s =
    (let s1 = emit (Debug ShutdownConnections) s;
         s2 = shutdown_loop (connections s1) s1;
         s3 = (case server s2 of
                 None \<Rightarrow> s2
               | Some l \<Rightarrow> (emit ServerClose s2)\<lparr>server := Some Closing\<rparr>)
     in (resolve () Pending, s3))"

definition close_callback :: "unit outcome \<times> state \<Rightarrow> unit outcome \<times> state" where
  "close_callback ps = (case ps of (p, s) \<Rightarrow> (resolve () p, s\<lparr>server := Some Closed\<rparr>))"

section \<open>shell, tty, executeCommand\<close>

definition exit_suffix :: string where
  "exit_suffix = CHR 0x0A # ''exit'' @ [CHR 0x0A]"

text \<open>The handler of the stream's \<open>close\<close> event, lines 100 to 107.\<close>

definition on_close :: "session \<Rightarrow> stream \<Rightarrow> bool outcome \<times> state \<Rightarrow> bool outcome \<times> state" where
  "on_close connection st ps =
    (case ps of (p, s) \<Rightarrow>
      (let s1 = emit (EndSession connection)
                  (emit StdinDestroy (emit (StdinUnpipe st) (emit (StreamEnd st None) s)))
       in case shutdown s1 of
            (Resolved u, s2) \<Rightarrow> (resolve True p, s2)
          | (Rejected e, s2) \<Rightarrow> (p, emit (UnhandledRejection e) s2)
          | (Pending, s2) \<Rightarrow> (p, s2)))"

text \<open>The events of the stream, handed to the two handlers in the order they fire.\<close>

fun deliver :: "session \<Rightarrow> stream \<Rightarrow> stream_event list \<Rightarrow> bool outcome \<times> state \<Rightarrow> bool outcome \<times> state" where
  "deliver connection st [] ps = ps"
| "deliver connection st (StderrData d # evs) ps =
     deliver connection st evs (reject (Data d) (fst ps), snd ps)"
| "deliver connection st (Close # evs) ps = deliver connection st evs (on_close connection st ps)"

definition shell :: "world \<Rightarrow> session \<Rightarrow> string option \<Rightarrow> state \<Rightarrow> bool outcome \<times> state" where
  "shell w connection command s =
    (let s1 = emit (Shell connection) s in
     case on_shell w connection of
       ShellThrows e \<Rightarrow> (Rejected e, s1)
     | ShellError e \<Rightarrow> (Rejected e, s1)
     | ShellSilent \<Rightarrow> (Pending, s1)
     | ShellStream st evs \<Rightarrow>
         (let s2 = emit (StreamPipeStdout st) s1;
              s3 = (case command of
                      Some cmd \<Rightarrow> if cmd \<noteq> [] then emit (StreamEnd st (Some (cmd @ exit_suffix))) s2
                                  else emit (StdinPipe st) s2
                    | None \<Rightarrow> emit (StdinPipe st) s2)
          in deliver connection st evs (Pending, s3)))"

definition tty :: "world \<Rightarrow> state \<Rightarrow> unit outcome \<times> state" where
  "tty w s =
    (case establish w s of
       (Rejected e, s1) \<Rightarrow> (Rejected e, s1)
     | (Pending, s1) \<Rightarrow> (Pending, s1)
     | (Resolved connection, s1) \<Rightarrow>
         (case shell w connection None (emit (Debug OpeningTty) s1) of
            (Resolved b, s2) \<Rightarrow> (Resolved (), s2)
          | (Rejected e, s2) \<Rightarrow> (Rejected e, s2)
          | (Pending, s2) \<Rightarrow> (Pending, s2)))"

definition executeCommand :: "world \<Rightarrow> string \<Rightarrow> state \<Rightarrow> unit outcome \<times> state" where
  "executeCommand w command s =
    (case establish w s of
       (Rejected e, s1) \<Rightarrow> (Rejected e, s1)
     | (Pending, s1) \<Rightarrow> (Pending, s1)
     | (Resolved connection, s1) \<Rightarrow>
         (case shell w connection (Some command) (emit (Debug (ExecutingCommand command)) s1) of
            (Resolved b, s2) \<Rightarrow> (Resolved (), s2)
          | (Rejected e, s2) \<Rightarrow> (Rejected e, s2)
          | (Pending, s2) \<Rightarrow> (Pending, s2)))"

section \<open>forward\<close>

text \<open>
  The connection handler given to \<open>net.createServer\<close>, lines 217 to 231, run for one
  accepted socket. Only a throw of \<open>forwardOut\<close> reaches the \<open>catch\<close>; an error passed to
  its callback goes to \<open>reject\<close>.
\<close>

definition accept :: "world \<Rightarrow> session \<Rightarrow> ForwardingOptions \<Rightarrow> socket \<Rightarrow> bool outcome \<times> state \<Rightarrow> bool outcome \<times> state" where
  "accept w connection fo sk ps =
    (case ps of (p, s) \<Rightarrow>
      (let s1 = emit (Debug (ForwardingConnection (fromPort fo) (toHost fo) (toPort fo))) s;
           s2 = emit (ForwardOut connection ''localhost'' (fromPort fo)
                        (case toHost fo of None \<Rightarrow> ''localhost''
                         | Some h \<Rightarrow> if h \<noteq> [] then h else ''localhost'')
                        (toPort fo))
                     (s1\<lparr>channels := Suc (channels s1)\<rparr>)
       in case on_forwardOut w (channels s1) of
            ChannelThrows e \<Rightarrow> (p, emit (Debug (ForwardingSocketFailed e)) s2)
          | ChannelError e \<Rightarrow> (reject e p, s2)
          | ChannelSilent \<Rightarrow> (p, s2)
          | Channel st \<Rightarrow> (p, emit (StreamPipe st sk) (emit (SocketPipe sk st) s2))))"

fun serve :: "world \<Rightarrow> session \<Rightarrow> ForwardingOptions \<Rightarrow> socket list \<Rightarrow> bool outcome \<times> state \<Rightarrow> bool outcome \<times> state" where
  "serve w connection fo [] ps = ps"
| "serve w connection fo (sk # sks) ps = serve w connection fo sks (accept w connection fo sk ps)"

text \<open>
  \<open>forward(options)\<close>. The callback of \<open>listen\<close> resolves once the listener is bound;
  client sockets are accepted only after that.
\<close>

definition forward :: "world \<Rightarrow> ForwardingOptions \<Rightarrow> state \<Rightarrow> bool outcome \<times> state" where
  "forward w fo s =
    (case establish w s of
       (Rejected e, s1) \<Rightarrow> (Rejected e, s1)
     | (Pending, s1) \<Rightarrow> (Pending, s1)
     | (Resolved connection, s1) \<Rightarrow>
         (let s2 = (emit (Listen (fromPort fo) ''localhost'') s1)\<lparr>server := Some Binding\<rparr> in
          case on_listen w of
            Some e \<Rightarrow> (Pending, emit (UnhandledError e) s2)
          | None \<Rightarrow>
              serve w connection fo (on_accept w)
                (resolve True Pending, s2\<lparr>server := Some Listening\<rparr>)))"

section \<open>Properties stated on traces\<close>

text \<open>The events a run adds to the trace it started from.\<close>

definition added :: "state \<Rightarrow> state \<Rightarrow> event list" where
  "added s s' = drop (length (trace s)) (trace s')"

fun is_Connect :: "event \<Rightarrow> bool" where
  "is_Connect (Connect c opts) = True"
| "is_Connect ev = False"

fun is_Question :: "event \<Rightarrow> bool" where
  "is_Question Question = True"
| "is_Question ev = False"

fun is_ForwardOut :: "event \<Rightarrow> bool" where
  "is_ForwardOut (ForwardOut c a p h q) = True"
| "is_ForwardOut ev = False"

text \<open>The hosts of the calls of \<open>connect\<close>, read off its first statement (line 146).\<close>

fun connecting :: "event list \<Rightarrow> string list" where
  "connecting [] = []"
| "connecting (Debug (ConnectingTo h) # evs) = h # connecting evs"
| "connecting (ev # evs) = connecting evs"

text \<open>The requests made to the transport: \<open>connect\<close> and \<open>forwardOut\<close>.\<close>

definition calls :: "event list \<Rightarrow> event list" where
  "calls evs = filter (\<lambda>ev. is_Connect ev \<or> is_ForwardOut ev) evs"

text \<open>The condition of line 181 on the stored options.\<close>

definition prompts :: "state \<Rightarrow> bool" where
  "prompts s = (looksEncrypted (options s) \<and> \<not> truthy_str (passphrase (options s)) \<and>
                \<not> noReadline (options s))"

text \<open>The agent-socket check of lines 169 to 171 fails.\<close>

definition aborts :: "state \<Rightarrow> bool" where
  "aborts s = (agentForward (options s) \<and> agentSock s = None)"

text \<open>
  What one call of \<open>connect\<close> adds after its first statement: no further call of
  \<open>connect\<close>, no \<open>forwardOut\<close>, at most one request to the transport, and one prompt exactly
  when line 181 asks for it and the agent-socket check has passed.
\<close>

definition tail_of_connect :: "state \<Rightarrow> event list \<Rightarrow> bool" where
  "tail_of_connect s evs =
     (connecting evs = [] \<and> filter is_ForwardOut evs = [] \<and> length (filter is_Connect evs) \<le> 1 \<and>
      filter is_Question evs = (if prompts s \<and> \<not> aborts s then [Question] else []))"

text \<open>The events of \<open>shutdown\<close> on a registry and a listener slot.\<close>

definition teardown :: "session list \<Rightarrow> listener option \<Rightarrow> event list" where
  "teardown cs l =
     Debug ShutdownConnections # concat (map (\<lambda>c. [RemoveAllListeners c, EndSession c]) cs) @
     (case l of None \<Rightarrow> [] | Some x \<Rightarrow> [ServerClose])"

text \<open>The data written to shell streams by \<open>stream.end(data)\<close>.\<close>

fun written :: "event list \<Rightarrow> string list" where
  "written [] = []"
| "written (StreamEnd st (Some d) # evs) = d # written evs"
| "written (ev # evs) = written evs"

text \<open>What the \<open>close\<close> handler of a shell stream does, and what a run of stream events adds.\<close>

definition close_events :: "session \<Rightarrow> stream \<Rightarrow> session list \<Rightarrow> listener option \<Rightarrow> event list" where
  "close_events c st cs l = [StreamEnd st None, StdinUnpipe st, StdinDestroy, EndSession c] @ teardown cs l"

fun stream_effects :: "session \<Rightarrow> stream \<Rightarrow> session list \<Rightarrow> listener option \<Rightarrow> stream_event list \<Rightarrow> event list" where
  "stream_effects c st cs l [] = []"
| "stream_effects c st cs l (StderrData d # evs) = stream_effects c st cs l evs"
| "stream_effects c st cs l (Close # evs) =
     close_events c st cs l @
     stream_effects c st cs (case l of None \<Rightarrow> None | Some x \<Rightarrow> Some Closing) evs"

fun settle :: "stream_event list \<Rightarrow> bool outcome \<Rightarrow> bool outcome" where
  "settle [] p = p"
| "settle (StderrData d # evs) p = settle evs (reject (Data d) p)"
| "settle (Close # evs) p = settle evs (resolve True p)"

text \<open>
  What the connection handler of \<open>forward\<close> adds for the accepted sockets, the first of
  them getting the answer to \<open>forwardOut\<close> request number \<open>n\<close>.
\<close>

fun client_events :: "world \<Rightarrow> session \<Rightarrow> ForwardingOptions \<Rightarrow> nat \<Rightarrow> socket list \<Rightarrow> event list" where
  "client_events w c fo n [] = []"
| "client_events w c fo n (sk # sks) =
     [Debug (ForwardingConnection (fromPort fo) (toHost fo) (toPort fo)),
      ForwardOut c ''localhost'' (fromPort fo)
        (case toHost fo of None \<Rightarrow> ''localhost'' | Some h \<Rightarrow> if h \<noteq> [] then h else ''localhost'')
        (toPort fo)] @
     (case on_forwardOut w n of
        Channel st \<Rightarrow> [SocketPipe sk st, StreamPipe st sk]
      | ChannelThrows e \<Rightarrow> [Debug (ForwardingSocketFailed e)]
      | ChannelError e \<Rightarrow> []
      | ChannelSilent \<Rightarrow> []) @
     client_events w c fo (Suc n) sks"

text \<open>The registry holds only clients that exist and whose \<open>ready\<close> event is in the trace.\<close>

definition registry_inv :: "state \<Rightarrow> bool" where
  "registry_inv s = list_all (\<lambda>c. c < clients s \<and> ReadyEvent c \<in> set (trace s)) (connections s)"

section \<open>Concrete inputs\<close>

definition example_env :: Env where
  "example_env = \<lparr>env_SSH_USERNAME = None, env_USER = Some ''alice'', env_SSH_AUTH_SOCK = None,
                   platform = ''linux'', defaultKeyFile = Absent\<rparr>"

definition key_env :: Env where
  "key_env = example_env\<lparr>defaultKeyFile := Present ''KEY''\<rparr>"

definition plain_options :: Options where
  "plain_options = \<lparr>bastionHost = None, endPort = None, endHost = ''target'', agentSocket = None,
     skipAutoPrivateKey = False, noReadline = False, host = Missing, port = Missing, username = None,
     privateKey = None, passphrase = None, agentForward = False, agent = None, sock = None\<rparr>"

definition resolved_options :: Options where
  "resolved_options = plain_options\<lparr>username := Some ''alice'', endPort := Some 22\<rparr>"

definition bastion_options :: Options where
  "bastion_options = resolved_options\<lparr>bastionHost := Some ''jump''\<rparr>"

definition encrypted_options :: Options where
  "encrypted_options = bastion_options\<lparr>privateKey := Some (KeyString ''Proc-Type: 4,ENCRYPTED'')\<rparr>"

definition agent_key_options :: Options where
  "agent_key_options = resolved_options\<lparr>agentForward := True,
     privateKey := Some (KeyString ''Proc-Type: 4,ENCRYPTED'')\<rparr>"

definition port_options :: Options where
  "port_options = plain_options\<lparr>bastionHost := Some ''jump'', endPort := Some 2222\<rparr>"

definition state_of :: "Options \<Rightarrow> state" where
  "state_of opts = \<lparr>options = opts, server = None, connections = [], isWindows = False,
     env = example_env, trace = [], clients = 0, channels = 0, questions = 0\<rparr>"

definition port_state :: state where
  "port_state = emit ExistsSync (state_of (resolved_options\<lparr>bastionHost := Some ''jump'', endPort := Some 2222\<rparr>))"

definition listening_state :: state where
  "listening_state = (state_of resolved_options)\<lparr>server := Some Listening, connections := [0],
     trace := [ReadyEvent 0], clients := 1\<rparr>"

text \<open>A world in which every request succeeds and every prompt is answered.\<close>

definition answering :: world where
  "answering = \<lparr>on_connect = (\<lambda>c. Ready), on_forwardOut = (\<lambda>n. Channel n),
     on_question = (\<lambda>n. Some ''secret''), on_shell = (\<lambda>c. ShellStream 7 [Close]),
     on_listen = None, on_accept = []\<rparr>"

definition refusing :: world where
  "refusing = answering\<lparr>on_connect := (\<lambda>c. Fails (Error ''refused''))\<rparr>"

text \<open>A listener that accepts two clients; the channel of the first one fails to open.\<close>

definition failing_first :: world where
  "failing_first = answering\<lparr>on_forwardOut := (\<lambda>n. if n = 0 then ChannelError (Error ''refused'') else Channel n),
     on_accept := [5, 6]\<rparr>"

definition example_forwarding :: ForwardingOptions where
  "example_forwarding = \<lparr>fromPort = 9000, toPort = 22, toHost = None\<rparr>"

section \<open>Lemmas\<close>

subsection \<open>Traces and fields\<close>

lemma added_append: "trace s' = trace s @ evs \<Longrightarrow> added s s' = evs"
  by (simp add: added_def)

lemma emit_fields:
  "options (emit ev s) = options s" "server (emit ev s) = server s"
  "connections (emit ev s) = connections s" "isWindows (emit ev s) = isWindows s"
  "env (emit ev s) = env s" "clients (emit ev s) = clients s"
  "channels (emit ev s) = channels s" "questions (emit ev s) = questions s"
  "trace (emit ev s) = trace s @ [ev]"
  by (simp_all add: emit_def)

lemma connecting_append: "connecting (xs @ ys) = connecting xs @ connecting ys"
  by (induction xs rule: connecting.induct) simp_all

lemma calls_append: "calls (xs @ ys) = calls xs @ calls ys"
  by (simp add: calls_def)

lemma calls_simps:
  "calls [] = []"
  "calls (Debug m # evs) = calls evs"
  "calls (Question # evs) = calls evs"
  "calls (ReadyEvent c # evs) = calls evs"
  "calls (Connect c opts # evs) = Connect c opts # calls evs"
  "calls (ForwardOut c a p h q # evs) = ForwardOut c a p h q # calls evs"
  by (simp_all add: calls_def)

lemma prompts_emit: "prompts (emit ev s) = prompts s"
  by (simp add: prompts_def emit_fields)

lemma agentSock_missing:
  assumes "agentSocket (options s) = None" "env_SSH_AUTH_SOCK (env s) = None" "\<not> isWindows s"
  shows "agentSock s = None"
  using assms by (simp add: agentSock_def truthy_str_def)

lemma agentSock_emit: "agentSock (emit ev s) = agentSock s"
  by (simp add: agentSock_def emit_def Let_def cong: if_cong)

lemma includes_str_iff: "includes_str s t \<longleftrightarrow> (\<exists>pre post. s = pre @ t @ post)"
proof (induction s)
  case Nil
  then show ?case by auto
next
  case (Cons c cs)
  have "take (length t) (c # cs) = t \<longleftrightarrow> (\<exists>post. c # cs = t @ post)"
    by (metis append_eq_conv_conj append_take_drop_id)
  moreover have "(\<exists>pre post. c # cs = pre @ t @ post) \<longleftrightarrow>
      (\<exists>post. c # cs = t @ post) \<or> (\<exists>pre post. cs = pre @ t @ post)"
  proof
    assume "\<exists>pre post. c # cs = pre @ t @ post"
    then obtain pre post where p: "c # cs = pre @ t @ post" by blast
    show "(\<exists>post. c # cs = t @ post) \<or> (\<exists>pre post. cs = pre @ t @ post)"
    proof (cases pre)
      case Nil
      then show ?thesis using p by auto
    next
      case (Cons a pre')
      then have "cs = pre' @ t @ post" using p by simp
      then show ?thesis by blast
    qed
  next
    assume "(\<exists>post. c # cs = t @ post) \<or> (\<exists>pre post. cs = pre @ t @ post)"
    then show "\<exists>pre post. c # cs = pre @ t @ post"
    proof
      assume "\<exists>post. c # cs = t @ post"
      then show ?thesis by (metis append_Nil)
    next
      assume "\<exists>pre post. cs = pre @ t @ post"
      then obtain pre post where "cs = pre @ t @ post" by blast
      then have "c # cs = (c # pre) @ t @ post" by simp
      then show ?thesis by blast
    qed
  qed
  ultimately show ?case
    using Cons.IH by simp
qed

subsection \<open>connect\<close>

lemma passphrase_connect_config: "passphrase (connect_config s h strm) = passphrase (options s)"
  by (simp add: connect_config_def Let_def)

lemma sock_connect_config:
  "sock (connect_config s h strm) = (case strm of None \<Rightarrow> sock (options s) | Some st \<Rightarrow> Some st)"
  by (simp add: connect_config_def Let_def split: option.splits)

lemma host_connect_config:
  "host (connect_config s h strm) =
     (case host (options s) of Missing \<Rightarrow> Value h | Undefined \<Rightarrow> Undefined | Value h' \<Rightarrow> Value h')"
  by (simp add: connect_config_def Let_def split: option.splits)

lemma connect_frame:
  "options (snd (connect w h strm s)) = options s \<and>
   server (snd (connect w h strm s)) = server s \<and>
   isWindows (snd (connect w h strm s)) = isWindows s \<and>
   env (snd (connect w h strm s)) = env s \<and>
   channels (snd (connect w h strm s)) = channels s \<and>
   clients (snd (connect w h strm s)) = Suc (clients s)"
  by (simp add: connect_def connect_attempt_def emit_def Let_def
           split: option.splits connect_reply.splits)

lemma connect_abort:
  assumes "agentForward (options s)" "agentSock s = None"
  shows "connect w h strm s =
           (Pending, s\<lparr>trace := trace s @ [Debug (ConnectingTo h), UnhandledRejection agentError],
                        clients := Suc (clients s)\<rparr>)"
  using assms by (simp add: connect_def emit_def Let_def)

lemma fst_connect_attempt:
  "fst (connect_attempt w c opts s) =
     (case on_connect w c of Ready \<Rightarrow> Resolved c | Fails e \<Rightarrow> Rejected e
      | Throws e \<Rightarrow> Rejected e | Silent \<Rightarrow> Pending)"
  by (simp add: connect_attempt_def Let_def split: connect_reply.splits)

lemma fst_connect:
  "fst (connect w h strm s) =
     (if agentForward (options s) \<and> agentSock s = None then Pending
      else if prompts s \<and> on_question w (questions s) = None then Pending
      else (case on_connect w (clients s) of Ready \<Rightarrow> Resolved (clients s) | Fails e \<Rightarrow> Rejected e
            | Throws e \<Rightarrow> Rejected e | Silent \<Rightarrow> Pending))"
  by (simp add: connect_def Let_def prompts_def passphrase_connect_config fst_connect_attempt
        emit_fields split: option.splits)

lemma connect_emit_fst: "fst (connect w h strm (emit ev s)) = fst (connect w h strm s)"
  by (simp add: fst_connect emit_fields prompts_emit agentSock_emit cong: connect_reply.case_cong)

lemma connect_resolved:
  assumes "connect w h strm s = (Resolved c, s')"
  shows "c = clients s \<and>
         trace s' = trace s @ Debug (ConnectingTo h) # (if prompts s then [Question] else []) @
           [Connect c (if prompts s
                       then (connect_config s h strm)\<lparr>passphrase := on_question w (questions s)\<rparr>
                       else connect_config s h strm),
            ReadyEvent c] \<and>
         connections s' = connections s @ [c] \<and>
         questions s' = (if prompts s then Suc (questions s) else questions s) \<and>
         on_connect w c = Ready \<and>
         \<not> (agentForward (options s) \<and> agentSock s = None)"
  using assms
  by (auto simp: connect_def connect_attempt_def emit_def Let_def prompts_def passphrase_connect_config
           split: option.splits connect_reply.splits if_splits)

lemma connect_resolved_not_aborts:
  "fst (connect w h strm s) = Resolved c \<Longrightarrow> \<not> aborts s \<and> c = clients s"
  by (auto simp: fst_connect aborts_def split: if_splits connect_reply.splits)

lemma connect_tail:
  "\<exists>tl. trace (snd (connect w h strm s)) = trace s @ Debug (ConnectingTo h) # tl \<and> tail_of_connect s tl"
  by (simp add: connect_def connect_attempt_def emit_def Let_def tail_of_connect_def prompts_def
        aborts_def passphrase_connect_config
           split: option.splits connect_reply.splits)

lemma tail_of_connect_cong:
  assumes "options s' = options s" "env s' = env s" "isWindows s' = isWindows s"
  shows "tail_of_connect s' evs = tail_of_connect s evs"
proof -
  have "agentSock s' = agentSock s"
    using assms by (simp add: agentSock_def cong: if_cong)
  then show ?thesis
    using assms by (simp add: tail_of_connect_def prompts_def aborts_def)
qed

lemma tail_of_connect_append:
  "tail_of_connect s evs \<Longrightarrow> tail_of_connect s (evs @ [UnhandledRejection e])"
  by (simp add: tail_of_connect_def connecting_append)

subsection \<open>establish\<close>

lemma establish_abort:
  assumes "agentForward (options s)" "agentSock s = None"
  shows "fst (establish w s) = Pending \<and>
         (\<exists>pre h. trace (snd (establish w s)) =
                    trace s @ pre @ [Debug (ConnectingTo h), UnhandledRejection agentError] \<and>
                  filter is_Connect pre = [])"
proof (cases "truthy_str (bastionHost (options s))")
  case False
  then show ?thesis using assms
    by (simp add: establish_def connect_abort)
next
  case True
  then obtain b where b: "bastionHost (options s) = Some b"
    by (auto simp: truthy_str_def split: option.splits)
  let ?s1 = "emit (Debug (ConnectingToBastion b)) s"
  have "agentForward (options ?s1)" "agentSock ?s1 = None"
    using assms by (simp_all add: agentSock_emit) (simp add: emit_def)
  then have c: "connect w b None ?s1 =
           (Pending, ?s1\<lparr>trace := trace ?s1 @ [Debug (ConnectingTo b), UnhandledRejection agentError],
                        clients := Suc (clients ?s1)\<rparr>)"
    by (rule connect_abort)
  have "establish w s = connectViaBastion w b s"
    using True b by (simp add: establish_def)
  also have "\<dots> = (Pending, ?s1\<lparr>trace := trace ?s1 @ [Debug (ConnectingTo b), UnhandledRejection agentError],
                        clients := Suc (clients ?s1)\<rparr>)"
    by (simp add: connectViaBastion_def c)
  finally show ?thesis
    by (simp add: emit_def)
qed

lemma connectViaBastion_resolved:
  assumes "connectViaBastion w b s = (Resolved c, s')"
  shows "\<exists>st o1 o2.
           trace s' = trace s @ [Debug (ConnectingToBastion b), Debug (ConnectingTo b)] @
             (if prompts s then [Question] else []) @
             [Connect (clients s) o1, ReadyEvent (clients s),
              ForwardOut (clients s) ''127.0.0.1'' 22 (endHost (options s))
                (num_or (endPort (options s)) 22),
              Debug (ConnectingTo (endHost (options s)))] @
             (if prompts s then [Question] else []) @
             [Connect c o2, ReadyEvent c] \<and>
           on_forwardOut w (channels s) = Channel st \<and>
           sock o1 = sock (options s) \<and> sock o2 = Some st \<and>
           c = Suc (clients s) \<and> connections s' = connections s @ [clients s, c]"
proof -
  let ?s1 = "emit (Debug (ConnectingToBastion b)) s"
  obtain r2 s2 where c1: "connect w b None ?s1 = (r2, s2)"
    by (cases "connect w b None ?s1")
  from assms c1 obtain cb where r2: "r2 = Resolved cb"
    by (cases r2) (simp_all add: connectViaBastion_def)
  note leg1 = connect_resolved [OF c1 [unfolded r2]]
  have fr2: "options s2 = options s" "env s2 = env s" "isWindows s2 = isWindows s"
    "channels s2 = channels s" "clients s2 = Suc (clients s)"
    using connect_frame [of w b None ?s1] c1 by (simp_all add: emit_def)
  have p1: "prompts ?s1 = prompts s"
    by (simp add: prompts_def emit_def)
  let ?s3 = "emit (ForwardOut cb ''127.0.0.1'' 22 (endHost (options s2)) (num_or (endPort (options s2)) 22))
               (s2\<lparr>channels := Suc (channels s2)\<rparr>)"
  from assms c1 r2 obtain st where st: "on_forwardOut w (channels s) = Channel st"
    by (cases "on_forwardOut w (channels s)") (simp_all add: connectViaBastion_def Let_def fr2)
  obtain r4 s4 where c2: "connect w (endHost (options ?s3)) (Some st) ?s3 = (r4, s4)"
    by (cases "connect w (endHost (options ?s3)) (Some st) ?s3")
  from assms c1 r2 st c2 have r4: "r4 = Resolved c" and s4: "s4 = s'"
    by (cases r4; simp add: connectViaBastion_def Let_def fr2)+
  note leg2 = connect_resolved [OF c2 [unfolded r4]]
  have p3: "prompts ?s3 = prompts s"
    by (simp add: prompts_def emit_def fr2)
  have o3: "options ?s3 = options s" "clients ?s3 = Suc (clients s)"
    by (simp_all add: emit_def fr2)
  have cb: "cb = clients s"
    using leg1 by (simp add: emit_def)
  have t2: "trace s2 = trace s @ [Debug (ConnectingToBastion b), Debug (ConnectingTo b)] @
              (if prompts s then [Question] else []) @
              [Connect (clients s)
                 (if prompts s
                  then (connect_config ?s1 b None)\<lparr>passphrase := on_question w (questions ?s1)\<rparr>
                  else connect_config ?s1 b None),
               ReadyEvent (clients s)]"
    using leg1 by (simp add: p1 cb) (simp add: emit_def)
  have t3: "trace ?s3 = trace s2 @
              [ForwardOut (clients s) ''127.0.0.1'' 22 (endHost (options s)) (num_or (endPort (options s)) 22)]"
    by (simp add: emit_def fr2 cb)
  have t4: "trace s' = trace ?s3 @ Debug (ConnectingTo (endHost (options s))) #
              (if prompts s then [Question] else []) @
              [Connect c
                 (if prompts s
                  then (connect_config ?s3 (endHost (options s)) (Some st))\<lparr>passphrase := on_question w (questions ?s3)\<rparr>
                  else connect_config ?s3 (endHost (options s)) (Some st)),
               ReadyEvent c]"
    using leg2 by (simp add: p3 o3 s4)
  have conns: "connections s' = connections s @ [clients s, c]"
    using leg1 leg2 by (simp add: s4 cb) (simp add: emit_def)
  have cc: "c = Suc (clients s)"
    using leg2 by (simp add: o3)
  show ?thesis
    apply (rule exI [of _ st])
    apply (rule exI [of _ "if prompts s
                  then (connect_config ?s1 b None)\<lparr>passphrase := on_question w (questions ?s1)\<rparr>
                  else connect_config ?s1 b None"])
    apply (rule exI [of _ "if prompts s
                  then (connect_config ?s3 (endHost (options s)) (Some st))\<lparr>passphrase := on_question w (questions ?s3)\<rparr>
                  else connect_config ?s3 (endHost (options s)) (Some st)"])
    apply (simp add: t4 t3 t2 st conns cc sock_connect_config)
    apply (simp add: emit_def)
    done
qed

lemma connectViaBastion_shape:
  "\<exists>tl1 tl2.
     added s (snd (connectViaBastion w b s)) =
       Debug (ConnectingToBastion b) # Debug (ConnectingTo b) # tl1 @
       (if fst (connect w b None s) = Resolved (clients s) then
          ForwardOut (clients s) ''127.0.0.1'' 22 (endHost (options s)) (num_or (endPort (options s)) 22) #
          (case on_forwardOut w (channels s) of
             Channel st \<Rightarrow> Debug (ConnectingTo (endHost (options s))) # tl2
           | ChannelError e \<Rightarrow> [] | ChannelThrows e \<Rightarrow> [] | ChannelSilent \<Rightarrow> [])
        else []) \<and>
     tail_of_connect s tl1 \<and> tail_of_connect s tl2"
proof -
  let ?s1 = "emit (Debug (ConnectingToBastion b)) s"
  obtain r2 s2 where c1: "connect w b None ?s1 = (r2, s2)"
    by (cases "connect w b None ?s1")
  have r2: "fst (connect w b None s) = r2"
    using connect_emit_fst [of w b None "Debug (ConnectingToBastion b)" s] c1 by simp
  obtain tl where t1: "trace s2 = trace ?s1 @ Debug (ConnectingTo b) # tl" and tl1: "tail_of_connect ?s1 tl"
    using connect_tail [of w b None ?s1] c1 by auto
  have t2: "trace s2 = trace s @ Debug (ConnectingToBastion b) # Debug (ConnectingTo b) # tl"
    using t1 by (simp add: emit_fields)
  have "tail_of_connect ?s1 tl = tail_of_connect s tl"
    by (rule tail_of_connect_cong) (simp_all add: emit_fields)
  then have tl: "tail_of_connect s tl"
    using tl1 by simp
  have fr2: "options s2 = options s" "channels s2 = channels s" "env s2 = env s"
    "isWindows s2 = isWindows s"
    using connect_frame [of w b None ?s1] c1 by (simp_all add: emit_fields)
  have a2: "added s s2 = Debug (ConnectingToBastion b) # Debug (ConnectingTo b) # tl"
    by (rule added_append) (simp add: t2)
  have nil: "tail_of_connect s tl \<and> tail_of_connect s tl"
    using tl by simp
  show ?thesis
  proof (cases r2)
    case (Rejected e)
    then show ?thesis using c1 r2 a2 tl
      by (intro exI [of _ tl]) (simp add: connectViaBastion_def)
  next
    case Pending
    then show ?thesis using c1 r2 a2 tl
      by (intro exI [of _ tl]) (simp add: connectViaBastion_def)
  next
    case (Resolved cb)
    have cb: "cb = clients s"
      using r2 Resolved by (simp add: fst_connect split: if_splits connect_reply.splits)
    let ?s3 = "emit (ForwardOut cb ''127.0.0.1'' 22 (endHost (options s2)) (num_or (endPort (options s2)) 22))
               (s2\<lparr>channels := Suc (channels s2)\<rparr>)"
    have a3: "added s ?s3 = Debug (ConnectingToBastion b) # Debug (ConnectingTo b) # tl @
                 [ForwardOut (clients s) ''127.0.0.1'' 22 (endHost (options s)) (num_or (endPort (options s)) 22)]"
      by (rule added_append) (simp add: t2 emit_fields fr2 cb)
    show ?thesis
    proof (cases "on_forwardOut w (channels s)")
      case (Channel st)
      obtain r4 s4 where c2: "connect w (endHost (options ?s3)) (Some st) ?s3 = (r4, s4)"
        by (cases "connect w (endHost (options ?s3)) (Some st) ?s3")
      obtain tl' where t4: "trace s4 = trace ?s3 @ Debug (ConnectingTo (endHost (options ?s3))) # tl'"
        and tl3: "tail_of_connect ?s3 tl'"
        using connect_tail [of w "endHost (options ?s3)" "Some st" ?s3] c2 by auto
      have "tail_of_connect ?s3 tl' = tail_of_connect s tl'"
        by (rule tail_of_connect_cong) (simp_all add: emit_fields fr2)
      then have tl': "tail_of_connect s tl'"
        using tl3 by simp
      have "\<exists>x. trace (snd (connectViaBastion w b s)) = trace s4 @ x \<and> tail_of_connect s (tl' @ x)"
        using c1 Resolved Channel c2 tl'
        by (cases r4) (simp_all add: connectViaBastion_def Let_def fr2 emit_fields tail_of_connect_append)
      then obtain x where x: "trace (snd (connectViaBastion w b s)) = trace s4 @ x"
        "tail_of_connect s (tl' @ x)"
        by blast
      have "added s (snd (connectViaBastion w b s)) =
              Debug (ConnectingToBastion b) # Debug (ConnectingTo b) # tl @
                 [ForwardOut (clients s) ''127.0.0.1'' 22 (endHost (options s)) (num_or (endPort (options s)) 22)] @
                 Debug (ConnectingTo (endHost (options s))) # (tl' @ x)"
        by (rule added_append) (simp add: x t4 t2 fr2 cb emit_fields)
      then show ?thesis
        using Resolved Channel r2 tl x cb
        by (intro exI [of _ tl] exI [of _ "tl' @ x"]) simp
    next
      case (ChannelError e)
      then show ?thesis using c1 Resolved r2 a3 tl cb
        by (intro exI [of _ tl]) (simp add: connectViaBastion_def Let_def fr2)
    next
      case (ChannelThrows e)
      then show ?thesis using c1 Resolved r2 a3 tl cb
        by (intro exI [of _ tl]) (simp add: connectViaBastion_def Let_def fr2)
    next
      case ChannelSilent
      then show ?thesis using c1 Resolved r2 a3 tl cb
        by (intro exI [of _ tl]) (simp add: connectViaBastion_def Let_def fr2)
    qed
  qed
qed

lemma connectViaBastion_options: "options (snd (connectViaBastion w b s)) = options s"
proof -
  let ?s1 = "emit (Debug (ConnectingToBastion b)) s"
  obtain r2 s2 where c1: "connect w b None ?s1 = (r2, s2)"
    by (cases "connect w b None ?s1")
  have fr2: "options s2 = options s"
    using connect_frame [of w b None ?s1] c1 by (simp add: emit_fields)
  show ?thesis
  proof (cases r2)
    case (Resolved cb)
    let ?s3 = "emit (ForwardOut cb ''127.0.0.1'' 22 (endHost (options s2)) (num_or (endPort (options s2)) 22))
               (s2\<lparr>channels := Suc (channels s2)\<rparr>)"
    show ?thesis
    proof (cases "on_forwardOut w (channels s2)")
      case (Channel st)
      obtain r4 s4 where c2: "connect w (endHost (options ?s3)) (Some st) ?s3 = (r4, s4)"
        by (cases "connect w (endHost (options ?s3)) (Some st) ?s3")
      have "options s4 = options s"
        using connect_frame [of w "endHost (options ?s3)" "Some st" ?s3] c2 by (simp add: emit_fields fr2)
      then show ?thesis
        using c1 Resolved Channel c2
        by (cases r4) (simp_all add: connectViaBastion_def Let_def emit_fields)
    qed (use c1 Resolved fr2 in \<open>simp_all add: connectViaBastion_def Let_def emit_fields\<close>)
  qed (use c1 fr2 in \<open>simp_all add: connectViaBastion_def\<close>)
qed

lemma establish_options: "options (snd (establish w s)) = options s"
  using connect_frame [of w "endHost (options s)" None s]
  by (simp add: establish_def connectViaBastion_options)

lemma establish_direct:
  assumes "\<not> truthy_str (bastionHost (options s))"
  shows "connecting (added s (snd (establish w s))) = [endHost (options s)]"
    and "fst (establish w s) = Resolved c \<Longrightarrow>
           \<exists>opts. calls (added s (snd (establish w s))) = [Connect c opts] \<and> sock opts = sock (options s)"
proof -
  have e: "establish w s = connect w (endHost (options s)) None s"
    using assms by (simp add: establish_def)
  obtain tl where "trace (snd (establish w s)) = trace s @ Debug (ConnectingTo (endHost (options s))) # tl"
    and tl: "tail_of_connect s tl"
    using connect_tail [of w "endHost (options s)" None s] e by auto
  then have "added s (snd (establish w s)) = Debug (ConnectingTo (endHost (options s))) # tl"
    by (simp add: added_append)
  then show "connecting (added s (snd (establish w s))) = [endHost (options s)]"
    using tl by (simp add: tail_of_connect_def)
next
  assume r: "fst (establish w s) = Resolved c"
  have e: "establish w s = connect w (endHost (options s)) None s"
    using assms by (simp add: establish_def)
  then have "connect w (endHost (options s)) None s = (Resolved c, snd (establish w s))"
    using r by (metis prod.collapse)
  note leg = connect_resolved [OF this]
  let ?opts = "if prompts s
               then (connect_config s (endHost (options s)) None)\<lparr>passphrase := on_question w (questions s)\<rparr>
               else connect_config s (endHost (options s)) None"
  have "added s (snd (establish w s)) =
          Debug (ConnectingTo (endHost (options s))) # (if prompts s then [Question] else []) @
          [Connect c ?opts, ReadyEvent c]"
    using leg by (simp add: added_append)
  then have "calls (added s (snd (establish w s))) = [Connect c ?opts]"
    by (simp add: calls_simps)
  moreover have "sock ?opts = sock (options s)"
    by (simp add: sock_connect_config)
  ultimately show "\<exists>opts. calls (added s (snd (establish w s))) = [Connect c opts] \<and> sock opts = sock (options s)"
    by blast
qed

lemma establish_bastion:
  assumes "bastionHost (options s) = Some b" "b \<noteq> []"
  shows "connecting (added s (snd (establish w s))) =
        (if fst (connect w b None s) = Resolved (clients s) \<and> (\<exists>st. on_forwardOut w (channels s) = Channel st)
         then [b, endHost (options s)] else [b])"
    and "fst (establish w s) = Resolved c \<Longrightarrow>
         \<exists>st o1 o2. calls (added s (snd (establish w s))) =
             [Connect (clients s) o1,
              ForwardOut (clients s) ''127.0.0.1'' 22 (endHost (options s)) (num_or (endPort (options s)) 22),
              Connect c o2] \<and>
             on_forwardOut w (channels s) = Channel st \<and> sock o1 = sock (options s) \<and> sock o2 = Some st"
proof -
  have e: "establish w s = connectViaBastion w b s"
    using assms by (simp add: establish_def truthy_str_def)
  obtain tl1 tl2 where
    "added s (snd (connectViaBastion w b s)) =
       Debug (ConnectingToBastion b) # Debug (ConnectingTo b) # tl1 @
       (if fst (connect w b None s) = Resolved (clients s) then
          ForwardOut (clients s) ''127.0.0.1'' 22 (endHost (options s)) (num_or (endPort (options s)) 22) #
          (case on_forwardOut w (channels s) of
             Channel st \<Rightarrow> Debug (ConnectingTo (endHost (options s))) # tl2
           | ChannelError e \<Rightarrow> [] | ChannelThrows e \<Rightarrow> [] | ChannelSilent \<Rightarrow> [])
        else [])"
    "tail_of_connect s tl1" "tail_of_connect s tl2"
    using connectViaBastion_shape [of s w b] by blast
  then show "connecting (added s (snd (establish w s))) =
        (if fst (connect w b None s) = Resolved (clients s) \<and> (\<exists>st. on_forwardOut w (channels s) = Channel st)
         then [b, endHost (options s)] else [b])"
    by (simp add: e connecting_append tail_of_connect_def split: forward_reply.splits)
next
  assume r: "fst (establish w s) = Resolved c"
  have e: "establish w s = connectViaBastion w b s"
    using assms by (simp add: establish_def truthy_str_def)
  then have "connectViaBastion w b s = (Resolved c, snd (establish w s))"
    using r by (metis prod.collapse)
  from connectViaBastion_resolved [OF this]
  obtain st o1 o2 where
    t: "trace (snd (establish w s)) = trace s @ [Debug (ConnectingToBastion b), Debug (ConnectingTo b)] @
             (if prompts s then [Question] else []) @
             [Connect (clients s) o1, ReadyEvent (clients s),
              ForwardOut (clients s) ''127.0.0.1'' 22 (endHost (options s))
                (num_or (endPort (options s)) 22),
              Debug (ConnectingTo (endHost (options s)))] @
             (if prompts s then [Question] else []) @
             [Connect c o2, ReadyEvent c]"
    and f: "on_forwardOut w (channels s) = Channel st" "sock o1 = sock (options s)" "sock o2 = Some st"
    by blast
  have "calls (added s (snd (establish w s))) =
             [Connect (clients s) o1,
              ForwardOut (clients s) ''127.0.0.1'' 22 (endHost (options s)) (num_or (endPort (options s)) 22),
              Connect c o2]"
    by (subst added_append [OF t]) (simp add: calls_simps calls_append)
  then show "\<exists>st o1 o2. calls (added s (snd (establish w s))) =
             [Connect (clients s) o1,
              ForwardOut (clients s) ''127.0.0.1'' 22 (endHost (options s)) (num_or (endPort (options s)) 22),
              Connect c o2] \<and>
             on_forwardOut w (channels s) = Channel st \<and> sock o1 = sock (options s) \<and> sock o2 = Some st"
    using f by blast
qed

lemma establish_forwardOuts:
  "filter is_ForwardOut (added s (snd (establish w s))) =
     (case bastionHost (options s) of
        None \<Rightarrow> []
      | Some b \<Rightarrow>
          if b \<noteq> [] \<and> fst (connect w b None s) = Resolved (clients s)
          then [ForwardOut (clients s) ''127.0.0.1'' 22 (endHost (options s)) (num_or (endPort (options s)) 22)]
          else [])"
proof (cases "truthy_str (bastionHost (options s))")
  case False
  have e: "establish w s = connect w (endHost (options s)) None s"
    using False by (simp add: establish_def)
  obtain tl where "trace (snd (establish w s)) = trace s @ Debug (ConnectingTo (endHost (options s))) # tl"
    and tl: "tail_of_connect s tl"
    using connect_tail [of w "endHost (options s)" None s] e by auto
  then have "added s (snd (establish w s)) = Debug (ConnectingTo (endHost (options s))) # tl"
    by (simp add: added_append)
  then show ?thesis
    using tl False by (auto simp: tail_of_connect_def truthy_str_def split: option.splits)
next
  case True
  then obtain b where b: "bastionHost (options s) = Some b" "b \<noteq> []"
    by (auto simp: truthy_str_def split: option.splits)
  have e: "establish w s = connectViaBastion w b s"
    using b by (simp add: establish_def truthy_str_def)
  obtain tl1 tl2 where
    "added s (snd (connectViaBastion w b s)) =
       Debug (ConnectingToBastion b) # Debug (ConnectingTo b) # tl1 @
       (if fst (connect w b None s) = Resolved (clients s) then
          ForwardOut (clients s) ''127.0.0.1'' 22 (endHost (options s)) (num_or (endPort (options s)) 22) #
          (case on_forwardOut w (channels s) of
             Channel st \<Rightarrow> Debug (ConnectingTo (endHost (options s))) # tl2
           | ChannelError e \<Rightarrow> [] | ChannelThrows e \<Rightarrow> [] | ChannelSilent \<Rightarrow> [])
        else [])"
    "tail_of_connect s tl1" "tail_of_connect s tl2"
    using connectViaBastion_shape [of s w b] by blast
  then show ?thesis
    using b by (simp add: e tail_of_connect_def split: forward_reply.splits)
qed

lemma establish_questions:
  assumes "bastionHost (options s) = Some b" "b \<noteq> []"
  shows "filter is_Question (added s (snd (establish w s))) =
           (if prompts s \<and> \<not> aborts s then
              (if fst (connect w b None s) = Resolved (clients s) \<and>
                  (\<exists>st. on_forwardOut w (channels s) = Channel st)
               then [Question, Question] else [Question])
            else [])"
proof -
  have e: "establish w s = connectViaBastion w b s"
    using assms by (simp add: establish_def truthy_str_def)
  obtain tl1 tl2 where
    "added s (snd (connectViaBastion w b s)) =
       Debug (ConnectingToBastion b) # Debug (ConnectingTo b) # tl1 @
       (if fst (connect w b None s) = Resolved (clients s) then
          ForwardOut (clients s) ''127.0.0.1'' 22 (endHost (options s)) (num_or (endPort (options s)) 22) #
          (case on_forwardOut w (channels s) of
             Channel st \<Rightarrow> Debug (ConnectingTo (endHost (options s))) # tl2
           | ChannelError e \<Rightarrow> [] | ChannelThrows e \<Rightarrow> [] | ChannelSilent \<Rightarrow> [])
        else [])"
    "tail_of_connect s tl1" "tail_of_connect s tl2"
    using connectViaBastion_shape [of s w b] by blast
  then show ?thesis
    using connect_resolved_not_aborts [of w b None s "clients s"]
    by (auto simp: e tail_of_connect_def split: forward_reply.splits)
qed

lemma constructor_options:
  assumes "constructor e opts = Inr s0"
  shows "endHost (options s0) = endHost opts" "bastionHost (options s0) = bastionHost opts"
    "num_or (endPort (options s0)) 22 = num_or (endPort opts) 22"
    "passphrase (options s0) = passphrase opts" "noReadline (options s0) = noReadline opts"
    "agentForward (options s0) = agentForward opts" "agentSocket (options s0) = agentSocket opts"
  using assms
  by (auto simp: constructor_def emit_def Let_def num_or_def truthy_num_def
           split: keyfile.splits if_splits option.splits)

subsection \<open>shutdown and shell\<close>

lemma shutdown_loop_fields:
  "trace (shutdown_loop cs s) = trace s @ concat (map (\<lambda>c. [RemoveAllListeners c, EndSession c]) cs) \<and>
   options (shutdown_loop cs s) = options s \<and> server (shutdown_loop cs s) = server s \<and>
   connections (shutdown_loop cs s) = connections s \<and> clients (shutdown_loop cs s) = clients s \<and>
   channels (shutdown_loop cs s) = channels s \<and> questions (shutdown_loop cs s) = questions s"
  by (induction cs arbitrary: s) (simp_all add: emit_fields)

lemma shutdown_fields:
  "fst (shutdown s) = Resolved () \<and>
   trace (snd (shutdown s)) = trace s @ teardown (connections s) (server s) \<and>
   server (snd (shutdown s)) = (case server s of None \<Rightarrow> None | Some l \<Rightarrow> Some Closing) \<and>
   options (snd (shutdown s)) = options s \<and> connections (snd (shutdown s)) = connections s \<and>
   clients (snd (shutdown s)) = clients s \<and> channels (snd (shutdown s)) = channels s"
  by (simp add: shutdown_def Let_def resolve_def shutdown_loop_fields emit_fields teardown_def
        split: option.splits)

lemma on_close_fields:
  "fst (on_close c st (p, s)) = resolve True p \<and>
   trace (snd (on_close c st (p, s))) = trace s @ close_events c st (connections s) (server s) \<and>
   connections (snd (on_close c st (p, s))) = connections s \<and>
   server (snd (on_close c st (p, s))) = (case server s of None \<Rightarrow> None | Some l \<Rightarrow> Some Closing) \<and>
   clients (snd (on_close c st (p, s))) = clients s"
proof -
  let ?s1 = "emit (EndSession c) (emit StdinDestroy (emit (StdinUnpipe st) (emit (StreamEnd st None) s)))"
  obtain r s2 where e: "shutdown ?s1 = (r, s2)"
    by (cases "shutdown ?s1")
  then have "r = Resolved ()" "trace s2 = trace ?s1 @ teardown (connections ?s1) (server ?s1)"
    "server s2 = (case server ?s1 of None \<Rightarrow> None | Some l \<Rightarrow> Some Closing)"
    "connections s2 = connections ?s1" "clients s2 = clients ?s1"
    using shutdown_fields [of ?s1] by simp_all
  then show ?thesis
    by (simp add: on_close_def e emit_fields close_events_def)
qed

lemma deliver_fields:
  "fst (deliver c st evs (p, s)) = settle evs p \<and>
   trace (snd (deliver c st evs (p, s))) = trace s @ stream_effects c st (connections s) (server s) evs \<and>
   connections (snd (deliver c st evs (p, s))) = connections s \<and>
   clients (snd (deliver c st evs (p, s))) = clients s"
proof (induction evs arbitrary: p s)
  case Nil
  then show ?case by simp
next
  case (Cons ev evs)
  show ?case
  proof (cases ev)
    case (StderrData d)
    then show ?thesis using Cons.IH [of "reject (Data d) p" s] by simp
  next
    case Close
    obtain p' s' where o: "on_close c st (p, s) = (p', s')"
      by (cases "on_close c st (p, s)")
    then have "p' = resolve True p" "trace s' = trace s @ close_events c st (connections s) (server s)"
      "connections s' = connections s"
      "server s' = (case server s of None \<Rightarrow> None | Some l \<Rightarrow> Some Closing)" "clients s' = clients s"
      using on_close_fields [of c st p s] by simp_all
    then show ?thesis
      using Cons.IH [of p' s'] Close o by simp
  qed
qed

lemma settle_settled: "p \<noteq> Pending \<Longrightarrow> settle evs p = p"
  by (induction evs p rule: settle.induct) (auto simp: resolve_def reject_def split: outcome.splits)

lemma settle_resolved: "settle evs Pending = Resolved b \<Longrightarrow> Close \<in> set evs"
proof (induction evs)
  case Nil
  then show ?case by simp
next
  case (Cons ev evs)
  show ?case
  proof (cases ev)
    case (StderrData d)
    then have "settle (ev # evs) Pending = Rejected (Data d)"
      by (simp add: reject_def settle_settled)
    then show ?thesis using Cons.prems by simp
  next
    case Close
    then show ?thesis by simp
  qed
qed

lemma written_append: "written (xs @ ys) = written xs @ written ys"
  by (induction xs rule: written.induct) simp_all

lemma written_teardown: "written (teardown cs l) = []"
proof -
  have "written (concat (map (\<lambda>c. [RemoveAllListeners c, EndSession c]) cs)) = []"
    by (induction cs) simp_all
  then show ?thesis
    by (simp add: teardown_def written_append split: option.splits)
qed

lemma written_stream_effects: "written (stream_effects c st cs l evs) = []"
  by (induction c st cs l evs rule: stream_effects.induct)
     (simp_all add: close_events_def written_append written_teardown)

lemma shell_empty_command: "shell w c (Some []) s = shell w c None s"
  by (cases "on_shell w c") (simp_all add: shell_def Let_def)

lemma shell_run:
  assumes "on_shell w c = ShellStream st evs"
  shows "fst (shell w c (Some command) s) = settle evs Pending \<and>
         trace (snd (shell w c (Some command) s)) =
           trace s @ [Shell c, StreamPipeStdout st,
                      (if command \<noteq> [] then StreamEnd st (Some (command @ exit_suffix))
                       else StdinPipe st)] @
           stream_effects c st (connections s) (server s) evs"
proof -
  let ?s3 = "emit (if command \<noteq> [] then StreamEnd st (Some (command @ exit_suffix)) else StdinPipe st)
               (emit (StreamPipeStdout st) (emit (Shell c) s))"
  have "shell w c (Some command) s = deliver c st evs (Pending, ?s3)"
    using assms by (simp add: shell_def Let_def)
  then show ?thesis
    using deliver_fields [of c st evs Pending ?s3] by (simp add: emit_fields)
qed

subsection \<open>forward\<close>

lemma accept_fields:
  "fst (accept w c fo sk (Resolved True, s)) = Resolved True \<and>
   trace (snd (accept w c fo sk (Resolved True, s))) = trace s @ client_events w c fo (channels s) [sk] \<and>
   server (snd (accept w c fo sk (Resolved True, s))) = server s \<and>
   connections (snd (accept w c fo sk (Resolved True, s))) = connections s \<and>
   clients (snd (accept w c fo sk (Resolved True, s))) = clients s \<and>
   channels (snd (accept w c fo sk (Resolved True, s))) = Suc (channels s)"
  by (simp add: accept_def Let_def emit_fields reject_def split: forward_reply.splits)

lemma serve_fields:
  "fst (serve w c fo sks (Resolved True, s)) = Resolved True \<and>
   trace (snd (serve w c fo sks (Resolved True, s))) = trace s @ client_events w c fo (channels s) sks \<and>
   server (snd (serve w c fo sks (Resolved True, s))) = server s \<and>
   connections (snd (serve w c fo sks (Resolved True, s))) = connections s \<and>
   clients (snd (serve w c fo sks (Resolved True, s))) = clients s"
proof (induction sks arbitrary: s)
  case Nil
  then show ?case by simp
next
  case (Cons sk sks)
  obtain p' s' where a: "accept w c fo sk (Resolved True, s) = (p', s')"
    by (cases "accept w c fo sk (Resolved True, s)")
  then have f: "p' = Resolved True" "trace s' = trace s @ client_events w c fo (channels s) [sk]"
    "server s' = server s" "connections s' = connections s" "clients s' = clients s"
    "channels s' = Suc (channels s)"
    using accept_fields [of w c fo sk s] by simp_all
  show ?case
    using Cons.IH [of s'] by (simp add: a f)
qed

lemma SocketEnd_client_events: "SocketEnd sk \<notin> set (client_events w c fo n sks)"
  by (induction w c fo n sks rule: client_events.induct) (simp_all split: forward_reply.splits)

lemma client_events_pipes:
  "i < length sks \<Longrightarrow> on_forwardOut w (n + i) = Channel st \<Longrightarrow>
   SocketPipe (sks ! i) st \<in> set (client_events w c fo n sks) \<and>
   StreamPipe st (sks ! i) \<in> set (client_events w c fo n sks)"
proof (induction sks arbitrary: n i)
  case Nil
  then show ?case by simp
next
  case (Cons sk sks)
  show ?case
  proof (cases i)
    case 0
    then show ?thesis using Cons.prems by simp
  next
    case (Suc j)
    then have "j < length sks" "on_forwardOut w (Suc n + j) = Channel st"
      using Cons.prems by simp_all
    then show ?thesis
      using Cons.IH [of j "Suc n"] Suc by simp
  qed
qed

subsection \<open>The registry invariant\<close>

lemma inv_mono:
  assumes "registry_inv s" and "connections s' = connections s" and "clients s \<le> clients s'"
    and "set (trace s) \<subseteq> set (trace s')"
  shows "registry_inv s'"
  using assms by (auto simp: registry_inv_def list_all_iff)

lemma inv_emit: "registry_inv s \<Longrightarrow> registry_inv (emit ev s)"
  by (rule inv_mono) (auto simp: emit_fields)

lemma connect_inv: "registry_inv s \<Longrightarrow> registry_inv (snd (connect w h strm s))"
  by (auto simp: connect_def connect_attempt_def emit_def Let_def registry_inv_def list_all_iff
        split: option.splits connect_reply.splits)

lemma connect_unregistered:
  assumes "registry_inv s" and "on_connect w (clients s) \<noteq> Ready"
  shows "clients s \<notin> set (connections (snd (connect w h strm s)))"
  using assms
  by (auto simp: connect_def connect_attempt_def emit_def Let_def registry_inv_def list_all_iff
        split: option.splits connect_reply.splits)

lemma connectViaBastion_inv:
  assumes "registry_inv s"
  shows "registry_inv (snd (connectViaBastion w b s))"
proof -
  let ?s1 = "emit (Debug (ConnectingToBastion b)) s"
  obtain r2 s2 where c1: "connect w b None ?s1 = (r2, s2)"
    by (cases "connect w b None ?s1")
  have i2: "registry_inv s2"
    using connect_inv [OF inv_emit [OF assms], of w b None "Debug (ConnectingToBastion b)"] c1 by simp
  show ?thesis
  proof (cases r2)
    case (Resolved cb)
    let ?s3 = "emit (ForwardOut cb ''127.0.0.1'' 22 (endHost (options s2)) (num_or (endPort (options s2)) 22))
               (s2\<lparr>channels := Suc (channels s2)\<rparr>)"
    have i3: "registry_inv ?s3"
      using i2 by (rule inv_mono) (auto simp: emit_fields)
    show ?thesis
    proof (cases "on_forwardOut w (channels s2)")
      case (Channel st)
      obtain r4 s4 where c2: "connect w (endHost (options ?s3)) (Some st) ?s3 = (r4, s4)"
        by (cases "connect w (endHost (options ?s3)) (Some st) ?s3")
      have i4: "registry_inv s4"
        using connect_inv [OF i3, of w "endHost (options ?s3)" "Some st"] c2 by simp
      then show ?thesis
        using c1 Resolved Channel c2
        by (cases r4) (simp_all add: connectViaBastion_def Let_def inv_emit)
    qed (use c1 Resolved i3 in \<open>simp_all add: connectViaBastion_def Let_def\<close>)
  qed (use c1 i2 in \<open>simp_all add: connectViaBastion_def\<close>)
qed

lemma establish_inv: "registry_inv s \<Longrightarrow> registry_inv (snd (establish w s))"
  by (simp add: establish_def connect_inv connectViaBastion_inv)

lemma shutdown_inv: "registry_inv s \<Longrightarrow> registry_inv (snd (shutdown s))"
  by (rule inv_mono) (use shutdown_fields [of s] in auto)

lemma shell_inv:
  assumes "registry_inv s"
  shows "registry_inv (snd (shell w c command s))"
proof (cases "on_shell w c")
  case (ShellStream st evs)
  let ?s2 = "emit (StreamPipeStdout st) (emit (Shell c) s)"
  let ?s3 = "case command of
               Some cmd \<Rightarrow> if cmd \<noteq> [] then emit (StreamEnd st (Some (cmd @ exit_suffix))) ?s2
                           else emit (StdinPipe st) ?s2
             | None \<Rightarrow> emit (StdinPipe st) ?s2"
  have "registry_inv ?s3"
    using assms by (auto simp: inv_emit split: option.splits)
  then have "registry_inv (snd (deliver c st evs (Pending, ?s3)))"
    by (rule inv_mono) (use deliver_fields [of c st evs Pending ?s3] in auto)
  then show ?thesis
    using ShellStream by (simp add: shell_def Let_def)
qed (use assms in \<open>simp_all add: shell_def Let_def inv_emit\<close>)

lemma tty_inv:
  assumes "registry_inv s"
  shows "registry_inv (snd (tty w s))"
proof -
  obtain r s1 where e: "establish w s = (r, s1)"
    by (cases "establish w s")
  then have i1: "registry_inv s1"
    using establish_inv [OF assms, of w] by simp
  show ?thesis
  proof (cases r)
    case (Resolved c)
    then show ?thesis
      using e shell_inv [OF inv_emit [OF i1], of w c None "Debug OpeningTty"]
      by (auto simp: tty_def split: prod.splits outcome.splits)
  qed (use e i1 in \<open>simp_all add: tty_def\<close>)
qed

lemma executeCommand_inv:
  assumes "registry_inv s"
  shows "registry_inv (snd (executeCommand w command s))"
proof -
  obtain r s1 where e: "establish w s = (r, s1)"
    by (cases "establish w s")
  then have i1: "registry_inv s1"
    using establish_inv [OF assms, of w] by simp
  show ?thesis
  proof (cases r)
    case (Resolved c)
    then show ?thesis
      using e shell_inv [OF inv_emit [OF i1], of w c "Some command" "Debug (ExecutingCommand command)"]
      by (auto simp: executeCommand_def split: prod.splits outcome.splits)
  qed (use e i1 in \<open>simp_all add: executeCommand_def\<close>)
qed

lemma forward_inv:
  assumes "registry_inv s"
  shows "registry_inv (snd (forward w fo s))"
proof -
  obtain r s1 where e: "establish w s = (r, s1)"
    by (cases "establish w s")
  then have i1: "registry_inv s1"
    using establish_inv [OF assms, of w] by simp
  show ?thesis
  proof (cases r)
    case (Resolved c)
    let ?s2 = "(emit (Listen (fromPort fo) ''localhost'') s1)\<lparr>server := Some Binding\<rparr>"
    let ?s3 = "?s2\<lparr>server := Some Listening\<rparr>"
    have i2: "registry_inv ?s2"
      using i1 by (rule inv_mono) (auto simp: emit_fields)
    show ?thesis
    proof (cases "on_listen w")
      case None
      have "registry_inv (snd (serve w c fo (on_accept w) (Resolved True, ?s3)))"
        using i1 by (rule inv_mono) (use serve_fields [of w c fo "on_accept w" ?s3] in \<open>auto simp: emit_fields\<close>)
      then show ?thesis
        using e Resolved None by (simp add: forward_def Let_def resolve_def)
    next
      case (Some err)
      then show ?thesis
        using e Resolved inv_emit [OF i2] by (simp add: forward_def Let_def)
    qed
  qed (use e i1 in \<open>simp_all add: forward_def\<close>)
qed

lemma constructor_inv: "constructor e opts = Inr s0 \<Longrightarrow> registry_inv s0"
  by (auto simp: constructor_def registry_inv_def emit_def Let_def split: keyfile.splits if_splits)

subsection \<open>Evaluation of the concrete runs\<close>

lemmas run_defs = establish_def connectViaBastion_def connect_def connect_attempt_def
  connect_config_def agentSock_def looksEncrypted_def emit_def state_of_def truthy_str_def
  truthy_key_def num_or_def Let_def resolved_options_def plain_options_def example_env_def
  answering_def added_def calls_def bastion_options_def refusing_def

lemma lower_example: "toLowerCase ''Proc-Type: 4,ENCRYPTED'' = ''proc-type: 4,encrypted''"
  by code_simp

lemma shutdown_listening_example:
  "shutdown listening_state =
     (Resolved (),
      listening_state\<lparr>trace := [ReadyEvent 0, Debug ShutdownConnections, RemoveAllListeners 0,
                                 EndSession 0, ServerClose],
                       server := Some Closing\<rparr>)"
  by (simp add: shutdown_def listening_state_def state_of_def emit_def resolve_def)

section \<open>The claims\<close>

text \<open>
  C1. With \<open>agentForward\<close> set, no explicit \<open>agentSocket\<close>, no \<open>SSH_AUTH_SOCK\<close> and a
  platform other than Windows, \<open>establish\<close> makes no call of the transport's \<open>connect\<close>.
  The error is thrown inside the \<open>async\<close> executor of \<open>connect\<close>, so it is reported as an
  unhandled rejection and the promises of \<open>establish\<close>, \<open>tty\<close>, \<open>executeCommand\<close> and
  \<open>forward\<close> stay pending: none of them is rejected with it.
\<close>

theorem establish_agent_socket_missing:
  assumes "agentForward (options s)" and "agentSocket (options s) = None"
    and "env_SSH_AUTH_SOCK (env s) = None" and "\<not> isWindows s"
  shows "fst (establish w s) = Pending \<and>
         filter is_Connect (added s (snd (establish w s))) = [] \<and>
         UnhandledRejection agentError \<in> set (added s (snd (establish w s))) \<and>
         tty w s = (Pending, snd (establish w s)) \<and>
         executeCommand w command s = (Pending, snd (establish w s)) \<and>
         forward w fo s = (Pending, snd (establish w s))"
proof -
  have sock: "agentSock s = None"
    using assms(2-4) by (rule agentSock_missing)
  obtain pre h where p: "fst (establish w s) = Pending"
    and t: "trace (snd (establish w s)) =
              trace s @ pre @ [Debug (ConnectingTo h), UnhandledRejection agentError]"
    and f: "filter is_Connect pre = []"
    using establish_abort [OF assms(1) sock] by blast
  have a: "added s (snd (establish w s)) = pre @ [Debug (ConnectingTo h), UnhandledRejection agentError]"
    using t by (simp add: added_append)
  have "tty w s = (Pending, snd (establish w s))"
    using p by (auto simp: tty_def split: prod.splits outcome.splits)
  moreover have "executeCommand w command s = (Pending, snd (establish w s))"
    using p by (auto simp: executeCommand_def split: prod.splits outcome.splits)
  moreover have "forward w fo s = (Pending, snd (establish w s))"
    using p by (auto simp: forward_def split: prod.splits outcome.splits)
  ultimately show ?thesis
    using p a f by simp
qed

theorem establish_agent_socket_missing_witness:
  "constructor example_env (plain_options\<lparr>agentForward := True\<rparr>) =
     Inr (state_of (resolved_options\<lparr>agentForward := True\<rparr>)) \<and>
   fst (establish answering (state_of (resolved_options\<lparr>agentForward := True\<rparr>))) = Pending \<and>
   filter is_Connect (trace (snd (establish answering (state_of (resolved_options\<lparr>agentForward := True\<rparr>))))) = [] \<and>
   fst (executeCommand answering ''ls'' (state_of (resolved_options\<lparr>agentForward := True\<rparr>))) = Pending \<and>
   fst (forward answering example_forwarding (state_of (resolved_options\<lparr>agentForward := True\<rparr>))) = Pending"
proof -
  let ?s = "state_of (resolved_options\<lparr>agentForward := True\<rparr>)"
  have c: "constructor example_env (plain_options\<lparr>agentForward := True\<rparr>) = Inr ?s"
    by (simp add: constructor_def example_env_def plain_options_def resolved_options_def
          state_of_def truthy_str_def truthy_num_def truthy_key_def str_or_def)
  have h: "agentForward (options ?s)" "agentSocket (options ?s) = None"
    "env_SSH_AUTH_SOCK (env ?s) = None" "\<not> isWindows ?s"
    by (simp_all add: state_of_def resolved_options_def plain_options_def example_env_def)
  have t: "added ?s (snd (establish answering ?s)) = trace (snd (establish answering ?s))"
    by (simp add: added_def state_of_def)
  show ?thesis
    using establish_agent_socket_missing [OF h, of answering "''ls''" example_forwarding] c t
    by simp
qed

text \<open>
  C2, as amended. Without a bastion host \<open>establish\<close> calls \<open>connect\<close> exactly once, for
  \<open>endHost\<close>, and when it resolves the transport was asked to connect exactly once. With a
  bastion host the first call of \<open>connect\<close> is for the bastion; the second, for \<open>endHost\<close>,
  is made exactly when the bastion connect became ready and the forwarded channel opened.
  When \<open>establish\<close> resolves, the requests to the transport are, in order, the connect of
  the bastion client, the \<open>forwardOut\<close> on it, and the connect of the target client with
  the stream of that channel as \<open>sock\<close>.
\<close>

theorem establish_connect_calls:
  "(\<not> truthy_str (bastionHost (options s)) \<longrightarrow>
      connecting (added s (snd (establish w s))) = [endHost (options s)] \<and>
      (\<forall>c. fst (establish w s) = Resolved c \<longrightarrow>
         (\<exists>opts. calls (added s (snd (establish w s))) = [Connect c opts] \<and>
                 sock opts = sock (options s)))) \<and>
   (bastionHost (options s) = Some b \<and> b \<noteq> [] \<longrightarrow>
      connecting (added s (snd (establish w s))) =
        (if fst (connect w b None s) = Resolved (clients s) \<and>
            (\<exists>st. on_forwardOut w (channels s) = Channel st)
         then [b, endHost (options s)] else [b]) \<and>
      (\<forall>c. fst (establish w s) = Resolved c \<longrightarrow>
         (\<exists>st o1 o2. calls (added s (snd (establish w s))) =
             [Connect (clients s) o1,
              ForwardOut (clients s) ''127.0.0.1'' 22 (endHost (options s))
                (num_or (endPort (options s)) 22),
              Connect c o2] \<and>
             on_forwardOut w (channels s) = Channel st \<and> sock o1 = sock (options s) \<and>
             sock o2 = Some st)))"
  using establish_direct [of s w] establish_bastion [of s b w] by blast

theorem establish_connect_calls_counterexample:
  "bastionHost (options (state_of bastion_options)) = Some ''jump'' \<and>
   fst (establish refusing (state_of bastion_options)) = Rejected (Error ''refused'') \<and>
   filter is_Connect (trace (snd (establish refusing (state_of bastion_options)))) =
     [Connect 0 (bastion_options\<lparr>host := Value ''jump'', port := Value 22\<rparr>)] \<and>
   connecting (trace (snd (establish refusing (state_of bastion_options)))) = [''jump'']"
  by (simp add: run_defs)

theorem establish_connect_calls_witness:
  "bastionHost (options (state_of bastion_options)) = Some ''jump'' \<and>
   fst (establish answering (state_of bastion_options)) = Resolved 1 \<and>
   connecting (added (state_of bastion_options) (snd (establish answering (state_of bastion_options)))) =
     [''jump'', ''target''] \<and>
   (\<exists>st o1 o2. calls (added (state_of bastion_options) (snd (establish answering (state_of bastion_options)))) =
      [Connect 0 o1, ForwardOut 0 ''127.0.0.1'' 22 ''target'' 22, Connect 1 o2] \<and>
      on_forwardOut answering 0 = Channel st \<and> sock o1 = None \<and> sock o2 = Some st)"
proof -
  let ?s = "state_of bastion_options"
  have h: "bastionHost (options ?s) = Some ''jump''" "''jump'' \<noteq> []"
    by (simp_all add: run_defs)
  have r: "fst (establish answering ?s) = Resolved 1"
    by (simp add: run_defs)
  have l: "fst (connect answering ''jump'' None ?s) = Resolved (clients ?s)"
    "on_forwardOut answering (channels ?s) = Channel 0"
    by (simp_all add: run_defs)
  have v: "clients ?s = 0" "channels ?s = 0" "endHost (options ?s) = ''target''"
    "num_or (endPort (options ?s)) 22 = 22" "sock (options ?s) = None"
    by (simp_all add: run_defs)
  show ?thesis
    using establish_connect_calls [of ?s answering "''jump''"] h r l
    by (simp add: v)
qed

text \<open>
  C3. Every forwarded channel that \<open>establish\<close> opens is opened on the session of the
  bastion connect, with the bind side \<open>127.0.0.1\<close> port 22 whatever the port of the target
  is, and with the destination \<open>endHost\<close> and the supplied \<open>endPort\<close> or 22 (a supplied 0
  counts as none, as \<open>||\<close> does). When the bastion connect becomes ready the channel is
  requested.
\<close>

theorem bastion_forwarded_channel:
  assumes "constructor e opts = Inr s0" and "options s = options s0"
  shows "(\<forall>c a p h q. ForwardOut c a p h q \<in> set (added s (snd (establish w s))) \<longrightarrow>
            c = clients s \<and> a = ''127.0.0.1'' \<and> p = 22 \<and> h = endHost opts \<and>
            q = num_or (endPort opts) 22) \<and>
         (\<forall>b. bastionHost opts = Some b \<and> b \<noteq> [] \<and> fst (connect w b None s) = Resolved (clients s) \<longrightarrow>
            ForwardOut (clients s) ''127.0.0.1'' 22 (endHost opts) (num_or (endPort opts) 22)
              \<in> set (added s (snd (establish w s))))"
proof -
  have o: "endHost (options s) = endHost opts" "bastionHost (options s) = bastionHost opts"
    "num_or (endPort (options s)) 22 = num_or (endPort opts) 22"
    using constructor_options [OF assms(1)] assms(2) by simp_all
  have m: "\<And>ev. is_ForwardOut ev \<Longrightarrow>
      ev \<in> set (added s (snd (establish w s))) \<longleftrightarrow>
      ev \<in> set (filter is_ForwardOut (added s (snd (establish w s))))"
    by simp
  show ?thesis
    by (auto simp: m establish_forwardOuts o split: option.splits if_splits)
qed

theorem bastion_forwarded_channel_witness:
  "constructor example_env port_options = Inr port_state \<and>
   ForwardOut 0 ''127.0.0.1'' 22 ''target'' 2222 \<in>
     set (trace (snd (establish answering port_state)))"
proof -
  have c: "constructor example_env port_options = Inr port_state"
    by (simp add: constructor_def example_env_def plain_options_def resolved_options_def
          state_of_def truthy_str_def truthy_num_def truthy_key_def str_or_def emit_def
          port_options_def port_state_def)
  have l: "bastionHost port_options = Some ''jump'' \<and> ''jump'' \<noteq> [] \<and>
    fst (connect answering ''jump'' None port_state) = Resolved (clients port_state)"
    by (simp add: run_defs port_options_def port_state_def)
  have v: "clients port_state = 0" "endHost port_options = ''target''"
    "num_or (endPort port_options) 22 = 2222"
    by (simp_all add: run_defs port_options_def port_state_def)
  have "\<forall>b. bastionHost port_options = Some b \<and> b \<noteq> [] \<and>
          fst (connect answering b None port_state) = Resolved (clients port_state) \<longrightarrow>
          ForwardOut (clients port_state) ''127.0.0.1'' 22 (endHost port_options)
            (num_or (endPort port_options) 22)
            \<in> set (added port_state (snd (establish answering port_state)))"
    using bastion_forwarded_channel [OF c refl, of answering] by (rule conjunct2)
  then have "ForwardOut (clients port_state) ''127.0.0.1'' 22 (endHost port_options)
            (num_or (endPort port_options) 22)
            \<in> set (added port_state (snd (establish answering port_state)))"
    using l by blast
  then have "ForwardOut 0 ''127.0.0.1'' 22 ''target'' 2222
            \<in> set (added port_state (snd (establish answering port_state)))"
    by (simp only: v)
  then have "ForwardOut 0 ''127.0.0.1'' 22 ''target'' 2222
            \<in> set (trace (snd (establish answering port_state)))"
    unfolding added_def by (rule in_set_dropD)
  then show ?thesis
    using c by simp
qed

text \<open>
  C4. \<open>shutdown\<close> removes the listeners of and ends every registered session in
  registration order, then asks the listener, if there is one, to close; it throws
  nothing. Its promise is resolved by the \<open>return resolve()\<close> of line 78 in the same turn,
  also when a listener exists: the listener is then still closing, and the completion of
  the close finds the promise already resolved.
\<close>

theorem shutdown_resolves_at_once:
  "fst (shutdown s) = Resolved () \<and>
   added s (snd (shutdown s)) = teardown (connections s) (server s) \<and>
   server (snd (shutdown s)) = (case server s of None \<Rightarrow> None | Some l \<Rightarrow> Some Closing) \<and>
   fst (close_callback (shutdown s)) = Resolved ()"
proof -
  obtain r s' where e: "shutdown s = (r, s')"
    by (cases "shutdown s")
  then have "r = Resolved ()" "trace s' = trace s @ teardown (connections s) (server s)"
    "server s' = (case server s of None \<Rightarrow> None | Some l \<Rightarrow> Some Closing)"
    using shutdown_fields [of s] by simp_all
  then show ?thesis
    by (simp add: e added_append close_callback_def resolve_def)
qed

text \<open>
  C5, as amended. Once \<open>establish\<close> has resolved and the shell stream is open,
  \<open>executeCommand\<close> with a command that is not the empty string writes the command
  followed by a newline, \<open>exit\<close> and a newline with \<open>stream.end\<close>, and writes nothing else;
  with the empty string it pipes stdin into the stream instead and writes nothing. In both
  cases each \<open>close\<close> of the stream ends it, unpipes and destroys stdin, ends the session and
  runs \<open>shutdown\<close>; the promise resolves only if the stream closed, and does resolve when
  \<open>close\<close> is the first event of the stream.
\<close>

theorem executeCommand_writes_command:
  assumes "establish w s = (Resolved c, s1)" and "on_shell w c = ShellStream st evs"
  shows "added s1 (snd (executeCommand w command s)) =
           [Debug (ExecutingCommand command), Shell c, StreamPipeStdout st,
            (if command \<noteq> [] then StreamEnd st (Some (command @ exit_suffix)) else StdinPipe st)] @
           stream_effects c st (connections s1) (server s1) evs \<and>
         written (added s1 (snd (executeCommand w command s))) =
           (if command \<noteq> [] then [command @ exit_suffix] else []) \<and>
         (fst (executeCommand w command s) = Resolved () \<longrightarrow> Close \<in> set evs) \<and>
         (\<forall>rest. evs = Close # rest \<longrightarrow> fst (executeCommand w command s) = Resolved ())"
proof -
  let ?s2 = "emit (Debug (ExecutingCommand command)) s1"
  let ?out = "if command \<noteq> [] then StreamEnd st (Some (command @ exit_suffix)) else StdinPipe st"
  obtain r s3 where sh: "shell w c (Some command) ?s2 = (r, s3)"
    by (cases "shell w c (Some command) ?s2")
  then have r: "r = settle evs Pending"
    and t: "trace s3 = trace ?s2 @ [Shell c, StreamPipeStdout st, ?out] @
           stream_effects c st (connections ?s2) (server ?s2) evs"
    using shell_run [OF assms(2), of command ?s2] by simp_all
  have e: "snd (executeCommand w command s) = s3"
    using assms(1) sh by (cases r) (simp_all add: executeCommand_def)
  have f: "fst (executeCommand w command s) =
             (case r of Resolved b \<Rightarrow> Resolved () | Rejected x \<Rightarrow> Rejected x | Pending \<Rightarrow> Pending)"
    using assms(1) sh by (cases r) (simp_all add: executeCommand_def)
  have a: "added s1 (snd (executeCommand w command s)) =
           [Debug (ExecutingCommand command), Shell c, StreamPipeStdout st, ?out] @
           stream_effects c st (connections s1) (server s1) evs"
    by (rule added_append) (simp add: e t emit_fields)
  have w: "written (added s1 (snd (executeCommand w command s))) =
           (if command \<noteq> [] then [command @ exit_suffix] else [])"
    unfolding a by (simp add: written_append written_stream_effects)
  have "fst (executeCommand w command s) = Resolved () \<Longrightarrow> Close \<in> set evs"
    using f r by (cases "settle evs Pending") (auto dest: settle_resolved)
  moreover have "\<And>rest. evs = Close # rest \<Longrightarrow> fst (executeCommand w command s) = Resolved ()"
    using f r by (simp add: resolve_def settle_settled)
  ultimately show ?thesis
    using a w by blast
qed

theorem executeCommand_writes_command_counterexample:
  "fst (executeCommand answering [] (state_of resolved_options)) = Resolved () \<and>
   written (trace (snd (executeCommand answering [] (state_of resolved_options)))) = [] \<and>
   trace (snd (executeCommand answering [] (state_of resolved_options))) =
     [Debug (ConnectingTo ''target''),
      Connect 0 (resolved_options\<lparr>host := Value ''target'', port := Value 22\<rparr>), ReadyEvent 0,
      Debug (ExecutingCommand []), Shell 0, StreamPipeStdout 7, StdinPipe 7,
      StreamEnd 7 None, StdinUnpipe 7, StdinDestroy, EndSession 0,
      Debug ShutdownConnections, RemoveAllListeners 0, EndSession 0]"
  by (simp add: executeCommand_def shell_def on_close_def shutdown_def resolve_def run_defs)

theorem executeCommand_writes_command_witness:
  "establish answering (state_of resolved_options) =
     (Resolved 0, snd (establish answering (state_of resolved_options))) \<and>
   on_shell answering 0 = ShellStream 7 [Close] \<and>
   fst (executeCommand answering ''ls'' (state_of resolved_options)) = Resolved () \<and>
   written (added (snd (establish answering (state_of resolved_options)))
      (snd (executeCommand answering ''ls'' (state_of resolved_options)))) = [''ls'' @ exit_suffix] \<and>
   written (added (snd (establish answering (state_of resolved_options)))
      (snd (executeCommand answering [] (state_of resolved_options)))) = []"
proof -
  let ?s = "state_of resolved_options"
  have h: "establish answering ?s = (Resolved 0, snd (establish answering ?s))"
    "on_shell answering 0 = ShellStream 7 [Close]"
    by (simp_all add: run_defs)
  note ls = executeCommand_writes_command [OF h, of "''ls''"]
  note empty = executeCommand_writes_command [OF h, of "[]"]
  have "written (added (snd (establish answering ?s)) (snd (executeCommand answering ''ls'' ?s))) =
          (if ''ls'' \<noteq> [] then [''ls'' @ exit_suffix] else [])"
    using ls by blast
  then have w1: "written (added (snd (establish answering ?s)) (snd (executeCommand answering ''ls'' ?s))) =
          [''ls'' @ exit_suffix]"
    by simp
  have r1: "fst (executeCommand answering ''ls'' ?s) = Resolved ()"
    using ls by blast
  have "written (added (snd (establish answering ?s)) (snd (executeCommand answering [] ?s))) =
          (if [] \<noteq> ([] :: string) then [[] @ exit_suffix] else [])"
    using empty by blast
  then have w2: "written (added (snd (establish answering ?s)) (snd (executeCommand answering [] ?s))) = []"
    by simp
  show ?thesis
    using h w1 r1 w2 by blast
qed

text \<open>
  C6, as amended. Once \<open>establish\<close> has resolved and the listener is bound, the promise of
  \<open>forward\<close> is resolved and stays so, and the listener stays listening, whatever the
  answers to the clients' \<open>forwardOut\<close> requests are. Each accepted socket adds its own
  events only, and these depend on the answer to its own request: the two pipes when the
  channel opens, a diagnostic message when \<open>forwardOut\<close> throws, nothing when the error
  comes through the callback. So every client whose channel opens is piped, whatever
  happened to the others, and the handler never ends or destroys a socket: the socket of
  a client whose channel failed is left open and unpiped.
\<close>

theorem forward_client_failure:
  assumes "establish w s = (Resolved c, s1)" and "on_listen w = None"
  shows "fst (forward w fo s) = Resolved True \<and>
         server (snd (forward w fo s)) = Some Listening \<and>
         added s1 (snd (forward w fo s)) =
           Listen (fromPort fo) ''localhost'' # client_events w c fo (channels s1) (on_accept w) \<and>
         (\<forall>i st. i < length (on_accept w) \<and> on_forwardOut w (channels s1 + i) = Channel st \<longrightarrow>
            SocketPipe (on_accept w ! i) st \<in> set (added s1 (snd (forward w fo s))) \<and>
            StreamPipe st (on_accept w ! i) \<in> set (added s1 (snd (forward w fo s)))) \<and>
         (\<forall>sk. SocketEnd sk \<notin> set (added s1 (snd (forward w fo s))))"
proof -
  let ?s2 = "(emit (Listen (fromPort fo) ''localhost'') s1)\<lparr>server := Some Binding\<rparr>"
  let ?s3 = "?s2\<lparr>server := Some Listening\<rparr>"
  have f: "forward w fo s = serve w c fo (on_accept w) (Resolved True, ?s3)"
    using assms by (simp add: forward_def Let_def resolve_def)
  have a: "added s1 (snd (forward w fo s)) =
           Listen (fromPort fo) ''localhost'' # client_events w c fo (channels s1) (on_accept w)"
    by (rule added_append) (simp add: f serve_fields emit_fields)
  have "fst (forward w fo s) = Resolved True" "server (snd (forward w fo s)) = Some Listening"
    using serve_fields [of w c fo "on_accept w" ?s3] by (simp_all add: f)
  then show ?thesis
    using client_events_pipes [of _ "on_accept w" w "channels s1" _ c fo]
    by (simp add: a SocketEnd_client_events)
qed

theorem forward_client_failure_counterexample:
  "fst (forward failing_first example_forwarding (state_of resolved_options)) = Resolved True \<and>
   on_forwardOut failing_first 0 = ChannelError (Error ''refused'') \<and>
   trace (snd (forward failing_first example_forwarding (state_of resolved_options))) =
     [Debug (ConnectingTo ''target''),
      Connect 0 (resolved_options\<lparr>host := Value ''target'', port := Value 22\<rparr>), ReadyEvent 0,
      Listen 9000 ''localhost'',
      Debug (ForwardingConnection 9000 None 22), ForwardOut 0 ''localhost'' 9000 ''localhost'' 22,
      Debug (ForwardingConnection 9000 None 22), ForwardOut 0 ''localhost'' 9000 ''localhost'' 22,
      SocketPipe 6 1, StreamPipe 1 6] \<and>
   SocketEnd 5 \<notin> set (trace (snd (forward failing_first example_forwarding (state_of resolved_options)))) \<and>
   Debug (ForwardingSocketFailed (Error ''refused'')) \<notin>
     set (trace (snd (forward failing_first example_forwarding (state_of resolved_options))))"
  by (simp add: forward_def accept_def resolve_def reject_def failing_first_def
        example_forwarding_def run_defs)

theorem forward_client_failure_witness:
  "establish failing_first (state_of resolved_options) =
     (Resolved 0, snd (establish failing_first (state_of resolved_options))) \<and>
   on_listen failing_first = None \<and>
   fst (forward failing_first example_forwarding (state_of resolved_options)) = Resolved True \<and>
   server (snd (forward failing_first example_forwarding (state_of resolved_options))) = Some Listening \<and>
   SocketEnd 5 \<notin> set (added (snd (establish failing_first (state_of resolved_options)))
     (snd (forward failing_first example_forwarding (state_of resolved_options))))"
proof -
  let ?s = "state_of resolved_options"
  have h: "establish failing_first ?s = (Resolved 0, snd (establish failing_first ?s))"
    "on_listen failing_first = None"
    by (simp_all add: failing_first_def run_defs)
  show ?thesis
    using forward_client_failure [OF h, of example_forwarding] h by blast
qed

text \<open>
  C7, as amended. A call of \<open>connect\<close> with a key that looks encrypted and no passphrase
  in the stored options. When the agent-socket check fails, it comes first: no prompt is
  made and the transport's \<open>connect\<close> is not called. Otherwise, when prompting is enabled,
  exactly one prompt is made, it comes before the transport's \<open>connect\<close>, and that call
  carries the answer as \<open>passphrase\<close> (with no answer there is no call and the promise stays
  pending); when \<open>noReadline\<close> is set there is no prompt and the call carries the stored
  passphrase, which is absent or empty.
\<close>

theorem connect_passphrase_prompt:
  assumes "looksEncrypted (options s)" and "\<not> truthy_str (passphrase (options s))"
  shows "(aborts s \<longrightarrow>
           filter is_Question (added s (snd (connect w h strm s))) = [] \<and>
           filter is_Connect (added s (snd (connect w h strm s))) = []) \<and>
         (\<not> aborts s \<and> \<not> noReadline (options s) \<longrightarrow>
           (case on_question w (questions s) of
              None \<Rightarrow>
                connect w h strm s = (Pending, snd (connect w h strm s)) \<and>
                added s (snd (connect w h strm s)) = [Debug (ConnectingTo h), Question]
            | Some answer \<Rightarrow>
                (\<exists>post. added s (snd (connect w h strm s)) =
                    Debug (ConnectingTo h) # Question #
                    Connect (clients s) ((connect_config s h strm)\<lparr>passphrase := Some answer\<rparr>) # post \<and>
                  filter is_Question post = [] \<and> filter is_Connect post = []))) \<and>
         (\<not> aborts s \<and> noReadline (options s) \<longrightarrow>
            (\<exists>post. added s (snd (connect w h strm s)) =
                Debug (ConnectingTo h) # Connect (clients s) (connect_config s h strm) # post \<and>
              filter is_Question post = [] \<and> filter is_Connect post = []) \<and>
            passphrase (connect_config s h strm) = passphrase (options s))"
  using assms
  by (auto simp: connect_def connect_attempt_def emit_def Let_def aborts_def added_def
        passphrase_connect_config split: option.splits connect_reply.splits)

theorem connect_passphrase_prompt_counterexample:
  "constructor example_env
     (plain_options\<lparr>agentForward := True, privateKey := Some (KeyString ''Proc-Type: 4,ENCRYPTED'')\<rparr>) =
     Inr (state_of agent_key_options) \<and>
   looksEncrypted (options (state_of agent_key_options)) \<and>
   passphrase (options (state_of agent_key_options)) = None \<and>
   noReadline (options (state_of agent_key_options)) = False \<and>
   filter is_Question (trace (snd (connect answering ''target'' None (state_of agent_key_options)))) = [] \<and>
   filter is_Connect (trace (snd (connect answering ''target'' None (state_of agent_key_options)))) = []"
  by (simp add: constructor_def truthy_num_def str_or_def agent_key_options_def toString_def
        lower_example run_defs)

theorem connect_passphrase_prompt_witness:
  "looksEncrypted (options (state_of encrypted_options)) \<and>
   passphrase (options (state_of encrypted_options)) = None \<and>
   on_question answering 0 = Some ''secret'' \<and>
   (\<exists>post. added (state_of encrypted_options)
             (snd (connect answering ''target'' None (state_of encrypted_options))) =
      Debug (ConnectingTo ''target'') # Question #
      Connect 0 ((connect_config (state_of encrypted_options) ''target'' None)\<lparr>passphrase := Some ''secret''\<rparr>) # post \<and>
      filter is_Question post = [] \<and> filter is_Connect post = [])"
proof -
  let ?s = "state_of encrypted_options"
  have h: "looksEncrypted (options ?s)" "\<not> truthy_str (passphrase (options ?s))"
    by (simp_all add: run_defs encrypted_options_def toString_def lower_example)
  have n: "\<not> aborts ?s" "\<not> noReadline (options ?s)" "on_question answering (questions ?s) = Some ''secret''"
    "clients ?s = 0" "passphrase (options ?s) = None" "on_question answering 0 = Some ''secret''"
    by (simp_all add: aborts_def run_defs encrypted_options_def)
  show ?thesis
    using connect_passphrase_prompt [OF h, of answering "''target''" None] n h(1)
    by simp
qed

text \<open>
  C8. The registry invariant holds after the constructor and is kept by every method:
  a client is pushed on \<open>this.connections\<close> only by the \<open>ready\<close> handler of its own
  \<open>connect\<close>. So a client whose \<open>ready\<close> event is not in the trace is not in the registry,
  and the client of a \<open>connect\<close> that is answered by an error, a throw or nothing is not
  registered by it.
\<close>

theorem registry_invariant:
  "(constructor e opts = Inr s0 \<longrightarrow> registry_inv s0) \<and>
   (registry_inv s \<longrightarrow>
      registry_inv (snd (connect w h strm s)) \<and> registry_inv (snd (establish w s)) \<and>
      registry_inv (snd (shutdown s)) \<and> registry_inv (snd (tty w s)) \<and>
      registry_inv (snd (executeCommand w command s)) \<and> registry_inv (snd (forward w fo s)) \<and>
      (\<forall>c. ReadyEvent c \<notin> set (trace s) \<longrightarrow> c \<notin> set (connections s)) \<and>
      (on_connect w (clients s) \<noteq> Ready \<longrightarrow>
         clients s \<notin> set (connections (snd (connect w h strm s)))))"
proof -
  have "registry_inv s \<Longrightarrow> \<forall>c. ReadyEvent c \<notin> set (trace s) \<longrightarrow> c \<notin> set (connections s)"
    by (auto simp: registry_inv_def list_all_iff)
  then show ?thesis
    using constructor_inv [of e opts s0] connect_inv [of s w h strm] establish_inv [of s w]
      shutdown_inv [of s] tty_inv [of s w] executeCommand_inv [of s w command]
      forward_inv [of s w fo] connect_unregistered [of s w h strm]
    by blast
qed

theorem registry_invariant_witness:
  "registry_inv (state_of bastion_options) \<and>
   registry_inv (snd (establish answering (state_of bastion_options))) \<and>
   connections (snd (establish answering (state_of bastion_options))) = [0, 1] \<and>
   on_connect refusing (clients (state_of bastion_options)) = Fails (Error ''refused'') \<and>
   clients (state_of bastion_options) \<notin>
     set (connections (snd (connect refusing ''jump'' None (state_of bastion_options))))"
proof -
  let ?s = "state_of bastion_options"
  have h: "registry_inv ?s"
    by (simp add: registry_inv_def run_defs)
  have k: "on_connect refusing (clients ?s) = Fails (Error ''refused'')"
    "connections (snd (establish answering ?s)) = [0, 1]"
    by (simp_all add: run_defs)
  then have n: "on_connect refusing (clients ?s) \<noteq> Ready"
    by simp
  show ?thesis
    using registry_invariant [where s = ?s and w = answering]
      registry_invariant [where s = ?s and w = refusing and h = "''jump''" and strm = None] h k n
    by blast
qed

text \<open>
  C9. The constructor probes the default key file exactly when the supplied options have
  no (truthy) \<open>privateKey\<close>, no \<open>agentForward\<close> and no \<open>skipAutoPrivateKey\<close>, and reads it
  exactly when it is also there. When the file is read, \<open>privateKey\<close> is its contents; when
  it is absent, or when \<open>skipAutoPrivateKey\<close> is set, \<open>privateKey\<close> is left as supplied and
  nothing is thrown. The only throw of the constructor is that of a file that exists and
  cannot be read.
\<close>

theorem constructor_default_key:
  "(constructor e opts = Inr s \<longrightarrow>
      (ExistsSync \<in> set (trace s)) =
        (\<not> truthy_key (privateKey opts) \<and> \<not> agentForward opts \<and> \<not> skipAutoPrivateKey opts) \<and>
      (ReadFileSync \<in> set (trace s)) =
        (\<not> truthy_key (privateKey opts) \<and> \<not> agentForward opts \<and> \<not> skipAutoPrivateKey opts \<and>
         defaultKeyFile e \<noteq> Absent)) \<and>
   (constructor e opts = Inl err \<longrightarrow>
      \<not> truthy_key (privateKey opts) \<and> \<not> agentForward opts \<and> \<not> skipAutoPrivateKey opts \<and>
      defaultKeyFile e = Unreadable err) \<and>
   (\<not> truthy_key (privateKey opts) \<and> \<not> agentForward opts \<and> \<not> skipAutoPrivateKey opts \<and>
      defaultKeyFile e = Present contents \<longrightarrow>
      (\<exists>s'. constructor e opts = Inr s' \<and> privateKey (options s') = Some (KeyBuffer contents))) \<and>
   (\<not> truthy_key (privateKey opts) \<and> \<not> agentForward opts \<and> \<not> skipAutoPrivateKey opts \<and>
      defaultKeyFile e = Absent \<longrightarrow>
      (\<exists>s'. constructor e opts = Inr s' \<and> privateKey (options s') = privateKey opts)) \<and>
   (skipAutoPrivateKey opts \<longrightarrow>
      (\<exists>s'. constructor e opts = Inr s' \<and> privateKey (options s') = privateKey opts \<and>
            ExistsSync \<notin> set (trace s') \<and> ReadFileSync \<notin> set (trace s')))"
  by (auto simp: constructor_def emit_def Let_def split: keyfile.splits if_splits)

theorem constructor_default_key_witness:
  "defaultKeyFile key_env = Present ''KEY'' \<and> privateKey plain_options = None \<and>
   (\<exists>s'. constructor key_env plain_options = Inr s' \<and>
         privateKey (options s') = Some (KeyBuffer ''KEY'')) \<and>
   (\<exists>s'. constructor key_env (plain_options\<lparr>skipAutoPrivateKey := True\<rparr>) = Inr s' \<and>
         privateKey (options s') = None \<and> ReadFileSync \<notin> set (trace s'))"
proof -
  have h: "\<not> truthy_key (privateKey plain_options) \<and> \<not> agentForward plain_options \<and>
           \<not> skipAutoPrivateKey plain_options \<and> defaultKeyFile key_env = Present ''KEY''"
    by (simp add: plain_options_def key_env_def example_env_def truthy_key_def)
  have k: "skipAutoPrivateKey (plain_options\<lparr>skipAutoPrivateKey := True\<rparr>)"
    "privateKey (plain_options\<lparr>skipAutoPrivateKey := True\<rparr>) = None"
    "privateKey plain_options = None"
    by (simp_all add: plain_options_def)
  let ?skip = "plain_options\<lparr>skipAutoPrivateKey := True\<rparr>"
  have a: "\<exists>s'. constructor key_env plain_options = Inr s' \<and>
         privateKey (options s') = Some (KeyBuffer ''KEY'')"
    using constructor_default_key [where e = key_env and opts = plain_options and contents = "''KEY''"] h
    by blast
  have "\<exists>s'. constructor key_env ?skip = Inr s' \<and> privateKey (options s') = privateKey ?skip \<and>
            ExistsSync \<notin> set (trace s') \<and> ReadFileSync \<notin> set (trace s')"
    using constructor_default_key [where e = key_env and opts = ?skip] k(1)
    by blast
  then have b: "\<exists>s'. constructor key_env ?skip = Inr s' \<and> privateKey (options s') = None \<and>
            ReadFileSync \<notin> set (trace s')"
    using k(2) by auto
  show ?thesis
    using a b h k(3) by blast
qed

text \<open>
  C10, as amended. With a bastion host, a key that looks encrypted, no passphrase and
  prompting enabled, each leg that gets past the agent-socket check prompts once: twice in
  total when the bastion connect becomes ready and the forwarded channel opens, once when
  the chain stops after the bastion leg, never when the agent socket is missing. The
  stored options are the same after \<open>establish\<close> as before, so no answer is written back.
\<close>

theorem bastion_prompts_per_leg:
  assumes "bastionHost (options s) = Some b" and "b \<noteq> []"
    and "looksEncrypted (options s)" and "\<not> truthy_str (passphrase (options s))"
    and "\<not> noReadline (options s)"
  shows "filter is_Question (added s (snd (establish w s))) =
           (if aborts s then []
            else if fst (connect w b None s) = Resolved (clients s) \<and>
                    (\<exists>st. on_forwardOut w (channels s) = Channel st)
                 then [Question, Question]
                 else [Question]) \<and>
         options (snd (establish w s)) = options s"
proof -
  have "prompts s"
    using assms(3-5) by (simp add: prompts_def)
  then show ?thesis
    using establish_questions [OF assms(1,2), of w] by (simp add: establish_options)
qed

theorem bastion_prompts_per_leg_counterexample:
  "bastionHost (options (state_of encrypted_options)) = Some ''jump'' \<and>
   looksEncrypted (options (state_of encrypted_options)) \<and>
   passphrase (options (state_of encrypted_options)) = None \<and>
   noReadline (options (state_of encrypted_options)) = False \<and>
   fst (establish refusing (state_of encrypted_options)) = Rejected (Error ''refused'') \<and>
   filter is_Question (trace (snd (establish refusing (state_of encrypted_options)))) = [Question]"
  by (simp add: run_defs encrypted_options_def toString_def lower_example)

theorem bastion_prompts_per_leg_witness:
  "bastionHost (options (state_of encrypted_options)) = Some ''jump'' \<and>
   looksEncrypted (options (state_of encrypted_options)) \<and>
   fst (establish answering (state_of encrypted_options)) = Resolved 1 \<and>
   filter is_Question (added (state_of encrypted_options)
      (snd (establish answering (state_of encrypted_options)))) = [Question, Question] \<and>
   passphrase (options (snd (establish answering (state_of encrypted_options)))) = None"
proof -
  let ?s = "state_of encrypted_options"
  have h: "bastionHost (options ?s) = Some ''jump''" "''jump'' \<noteq> []"
    "looksEncrypted (options ?s)" "\<not> truthy_str (passphrase (options ?s))"
    "\<not> noReadline (options ?s)"
    by (simp_all add: run_defs encrypted_options_def toString_def lower_example)
  have l: "\<not> aborts ?s" "fst (connect answering ''jump'' None ?s) = Resolved (clients ?s)"
    "on_forwardOut answering (channels ?s) = Channel 0"
    "fst (establish answering ?s) = Resolved 1" "passphrase (options ?s) = None"
    by (simp_all add: aborts_def run_defs encrypted_options_def toString_def lower_example)
  show ?thesis
    using bastion_prompts_per_leg [OF h, of answering] h l
    by simp
qed

end
